theory Spec2Isabelle
  imports Main
begin

section \<open>JSON values and the persistent store\<close>

text \<open>
  The backend is JavaScript on top of a PostgreSQL store reached through the Supabase
  client. Values that cross the boundary are JSON values; \<open>JUndefined\<close> is JavaScript's
  \<open>undefined\<close>, which is what reading an absent property gives. Numbers are the integers
  of the schema's INTEGER columns. An object is its list of properties.
\<close>

datatype jsval =
    JUndefined
  | JNull
  | JBool bool
  | JNum int
  | JStr string
  | JObj "(string \<times> jsval) list"

type_synonym uuid = nat
type_synonym timestamp = nat

text \<open>The error object of a store call: the client reads \<open>error.code\<close> and \<open>error.message\<close>.\<close>

record db_error =
  err_code :: string
  err_message :: string

definition pgrst116 :: db_error where
  "pgrst116 = \<lparr>err_code = ''PGRST116'', err_message = ''no rows or several rows returned''\<rparr>"

definition unique_violation :: db_error where
  "unique_violation = \<lparr>err_code = ''23505'', err_message = ''duplicate key value violates unique constraint''\<rparr>"

definition invalid_input :: db_error where
  "invalid_input = \<lparr>err_code = ''22P02'', err_message = ''invalid input syntax''\<rparr>"

definition undefined_column :: db_error where
  "undefined_column = \<lparr>err_code = ''PGRST204'', err_message = ''column not found''\<rparr>"

definition out_of_range :: db_error where
  "out_of_range = \<lparr>err_code = ''22003'', err_message = ''value out of range for type integer''\<rparr>"

definition foreign_key_violation :: db_error where
  "foreign_key_violation = \<lparr>err_code = ''23503'', err_message = ''violates foreign key constraint''\<rparr>"

text \<open>
  The tables of \<open>schema_api_keys.sql\<close>, with the columns the code reads or writes.
  A nullable column is an \<open>option\<close>; the columns \<open>name\<close> and \<open>created_at\<close>, which the code
  never touches, are left out. The table \<open>users\<close> is not part of the model: a caller
  identity is taken to be a registered user.

  The service works on the tables \<open>sites\<close> and \<open>site_configs\<close> of the schema
  \<open>accessibility\<close>, which it describes in its comments: \<open>sites (id: UUID PK, site_id: TEXT
  UNIQUE, user_id: UUID FK)\<close>, as in the SQL file, and \<open>site_configs.site_id is UUID (FK
  to sites.id)\<close>, where the SQL file has a TEXT reference to \<open>sites.site_id\<close>. The code
  fills and filters \<open>site_configs.site_id\<close> with the primary key of the site, so the
  column holds \<open>sites.id\<close> here.
\<close>

record api_key_row =
  ak_id :: uuid
  ak_api_key :: string
  ak_user_id :: uuid
  ak_is_active :: "bool option"
  ak_last_used_at :: "timestamp option"
  ak_expires_at :: "timestamp option"

record site_row =
  s_id :: uuid
  s_site_id :: string
  s_user_id :: uuid

record config_row =
  c_id :: uuid
  c_site_id :: uuid
  c_cursor_mode_enabled :: "bool option"
  c_cursor_speed :: "int option"
  c_scroll_speed :: "int option"
  c_accessibility_profile :: "string option"
  c_enter_hold_ms :: "int option"
  c_exit_hold_ms :: "int option"
  c_click_cooldown_ms :: "int option"
  c_updated_at :: "timestamp option"

datatype table = ApiKeys | Sites | SiteConfigs
datatype verb = Select | Insert | Update

text \<open>
  What the environment does when a store call of the running handler arrives: it serves
  the call (\<open>Proceed\<close>), fails it with an error object (\<open>Fail\<close>), or serves first the
  insert of a concurrently running handler that creates the same site
  (\<open>RivalInsertSite\<close>). The \<open>script\<close> of the store lists these events call by call; an
  exhausted script means every further call is served undisturbed.
\<close>

datatype event = Proceed | Fail db_error | RivalInsertSite string uuid

record store =
  api_keys :: "api_key_row list"
  sites :: "site_row list"
  site_configs :: "config_row list"
  clock :: timestamp
  script :: "event list"
  calls :: "(table \<times> verb) list"

definition tables :: "store \<Rightarrow> api_key_row list \<times> site_row list \<times> config_row list" where
  "tables st = (api_keys st, sites st, site_configs st)"

text \<open>
  The constraints of the schema on the two tables of the service: primary keys and site
  identifiers are unique, a site has at most one configuration, and every configuration
  belongs to a site.
\<close>

definition store_ok :: "store \<Rightarrow> bool" where
  "store_ok st =
     (distinct (map s_id (sites st))
      \<and> distinct (map s_site_id (sites st))
      \<and> distinct (map c_site_id (site_configs st))
      \<and> list_all (\<lambda>c. c_site_id c \<in> s_id ` set (sites st)) (site_configs st))"

text \<open>\<open>gen_random_uuid()\<close>: a key that no row of the table carries.\<close>

definition fresh :: "uuid list \<Rightarrow> uuid" where
  "fresh ids = Suc (foldr max ids 0)"

text \<open>The PostgREST result shapes \<open>.single()\<close> and \<open>.maybeSingle()\<close>.\<close>

definition single :: "'a list \<Rightarrow> db_error + 'a" where
  "single rows = (case rows of [r] \<Rightarrow> Inr r | _ \<Rightarrow> Inl pgrst116)"

definition maybeSingle :: "'a list \<Rightarrow> db_error + 'a option" where
  "maybeSingle rows = (case rows of [] \<Rightarrow> Inr None | [r] \<Rightarrow> Inr (Some r) | _ \<Rightarrow> Inl pgrst116)"

definition begin_call :: "table \<times> verb \<Rightarrow> store \<Rightarrow> event \<times> store" where
  "begin_call c st =
     (case script st of
        [] \<Rightarrow> (Proceed, st\<lparr>calls := calls st @ [c]\<rparr>)
      | e # es \<Rightarrow> (e, st\<lparr>script := es, calls := calls st @ [c]\<rparr>))"

text \<open>An insert into \<open>sites\<close>: \<open>site_id TEXT UNIQUE NOT NULL\<close> rejects a second row with the
  same site identifier, whoever owns it.\<close>

definition add_site :: "string \<Rightarrow> uuid \<Rightarrow> store \<Rightarrow> (db_error + site_row) \<times> store" where
  "add_site siteId userId st =
     (if \<exists>r \<in> set (sites st). s_site_id r = siteId then (Inl unique_violation, st)
      else let row = \<lparr>s_id = fresh (map s_id (sites st)), s_site_id = siteId, s_user_id = userId\<rparr>
           in (Inr row, st\<lparr>sites := sites st @ [row]\<rparr>))"

definition rival :: "event \<Rightarrow> store \<Rightarrow> store" where
  "rival ev st = (case ev of RivalInsertSite siteId userId \<Rightarrow> snd (add_site siteId userId st) | _ \<Rightarrow> st)"

subsection \<open>Calls on \<open>api_keys\<close>\<close>

definition select_api_key :: "string \<Rightarrow> store \<Rightarrow> (db_error + api_key_row) \<times> store" where
  "select_api_key apiKey st =
     (case begin_call (ApiKeys, Select) st of
        (Fail e, st1) \<Rightarrow> (Inl e, st1)
      | (ev, st1) \<Rightarrow>
          (let st2 = rival ev st1
           in (single (filter (\<lambda>r. ak_api_key r = apiKey) (api_keys st2)), st2)))"

definition update_last_used_at :: "timestamp \<Rightarrow> uuid \<Rightarrow> store \<Rightarrow> (db_error + unit) \<times> store" where
  "update_last_used_at now keyId st =
     (case begin_call (ApiKeys, Update) st of
        (Fail e, st1) \<Rightarrow> (Inl e, st1)
      | (ev, st1) \<Rightarrow>
          (let st2 = rival ev st1
           in (Inr (),
               st2\<lparr>api_keys := map (\<lambda>r. if ak_id r = keyId then r\<lparr>ak_last_used_at := Some now\<rparr> else r)
                                    (api_keys st2)\<rparr>)))"

subsection \<open>Calls on \<open>sites\<close>\<close>

definition select_site ::
  "(site_row list \<Rightarrow> db_error + 'r) \<Rightarrow> string \<Rightarrow> uuid \<Rightarrow> store \<Rightarrow> (db_error + 'r) \<times> store" where
  "select_site shape siteId userId st =
     (case begin_call (Sites, Select) st of
        (Fail e, st1) \<Rightarrow> (Inl e, st1)
      | (ev, st1) \<Rightarrow>
          (let st2 = rival ev st1
           in (shape (filter (\<lambda>r. s_site_id r = siteId \<and> s_user_id r = userId) (sites st2)), st2)))"

definition insert_site :: "string \<Rightarrow> uuid \<Rightarrow> store \<Rightarrow> (db_error + site_row) \<times> store" where
  "insert_site siteId userId st =
     (case begin_call (Sites, Insert) st of
        (Fail e, st1) \<Rightarrow> (Inl e, st1)
      | (ev, st1) \<Rightarrow> add_site siteId userId (rival ev st1))"

subsection \<open>Calls on \<open>site_configs\<close>\<close>

text \<open>
  The typed columns of \<open>site_configs\<close>. A column takes \<open>null\<close> or a JSON value of its own
  type and stores it as it is; a value of another JSON type is answered with the error
  22P02 (the conversions PostgreSQL would try on it are not modelled). An INTEGER column
  holds 32 bits: a number outside that range is answered with the error 22003. A
  timestamp is the number of its instant.
\<close>

definition in_int32 :: "int \<Rightarrow> bool" where
  "in_int32 n = (- 2147483648 \<le> n \<and> n \<le> 2147483647)"

definition as_boolean :: "jsval \<Rightarrow> db_error + bool option" where
  "as_boolean v = (case v of JNull \<Rightarrow> Inr None | JBool b \<Rightarrow> Inr (Some b) | _ \<Rightarrow> Inl invalid_input)"

definition as_integer :: "jsval \<Rightarrow> db_error + int option" where
  "as_integer v =
     (case v of
        JNull \<Rightarrow> Inr None
      | JNum n \<Rightarrow> (if in_int32 n then Inr (Some n) else Inl out_of_range)
      | _ \<Rightarrow> Inl invalid_input)"

definition as_text :: "jsval \<Rightarrow> db_error + string option" where
  "as_text v = (case v of JNull \<Rightarrow> Inr None | JStr s \<Rightarrow> Inr (Some s) | _ \<Rightarrow> Inl invalid_input)"

definition as_timestamp :: "jsval \<Rightarrow> db_error + timestamp option" where
  "as_timestamp v =
     (case v of
        JNull \<Rightarrow> Inr None
      | JNum n \<Rightarrow> (if 0 \<le> n then Inr (Some (nat n)) else Inl invalid_input)
      | _ \<Rightarrow> Inl invalid_input)"

text \<open>The columns of \<open>site_configs\<close> that an insert or an update can name.\<close>

datatype col =
    CursorModeEnabled
  | CursorSpeed
  | ScrollSpeed
  | AccessibilityProfile
  | EnterHoldMs
  | ExitHoldMs
  | ClickCooldownMs
  | UpdatedAt

definition column_named :: "string \<Rightarrow> col option" where
  "column_named k =
     (if k = ''cursor_mode_enabled'' then Some CursorModeEnabled
      else if k = ''cursor_speed'' then Some CursorSpeed
      else if k = ''scroll_speed'' then Some ScrollSpeed
      else if k = ''accessibility_profile'' then Some AccessibilityProfile
      else if k = ''enter_hold_ms'' then Some EnterHoldMs
      else if k = ''exit_hold_ms'' then Some ExitHoldMs
      else if k = ''click_cooldown_ms'' then Some ClickCooldownMs
      else if k = ''updated_at'' then Some UpdatedAt
      else None)"

fun name_of :: "col \<Rightarrow> string" where
  "name_of CursorModeEnabled = ''cursor_mode_enabled''"
| "name_of CursorSpeed = ''cursor_speed''"
| "name_of ScrollSpeed = ''scroll_speed''"
| "name_of AccessibilityProfile = ''accessibility_profile''"
| "name_of EnterHoldMs = ''enter_hold_ms''"
| "name_of ExitHoldMs = ''exit_hold_ms''"
| "name_of ClickCooldownMs = ''click_cooldown_ms''"
| "name_of UpdatedAt = ''updated_at''"

fun write_col :: "col \<Rightarrow> jsval \<Rightarrow> config_row \<Rightarrow> db_error + config_row" where
  "write_col CursorModeEnabled v row = map_sum id (\<lambda>x. row\<lparr>c_cursor_mode_enabled := x\<rparr>) (as_boolean v)"
| "write_col CursorSpeed v row = map_sum id (\<lambda>x. row\<lparr>c_cursor_speed := x\<rparr>) (as_integer v)"
| "write_col ScrollSpeed v row = map_sum id (\<lambda>x. row\<lparr>c_scroll_speed := x\<rparr>) (as_integer v)"
| "write_col AccessibilityProfile v row = map_sum id (\<lambda>x. row\<lparr>c_accessibility_profile := x\<rparr>) (as_text v)"
| "write_col EnterHoldMs v row = map_sum id (\<lambda>x. row\<lparr>c_enter_hold_ms := x\<rparr>) (as_integer v)"
| "write_col ExitHoldMs v row = map_sum id (\<lambda>x. row\<lparr>c_exit_hold_ms := x\<rparr>) (as_integer v)"
| "write_col ClickCooldownMs v row = map_sum id (\<lambda>x. row\<lparr>c_click_cooldown_ms := x\<rparr>) (as_integer v)"
| "write_col UpdatedAt v row = map_sum id (\<lambda>x. row\<lparr>c_updated_at := x\<rparr>) (as_timestamp v)"

definition of_boolean :: "bool option \<Rightarrow> jsval" where
  "of_boolean x = (case x of None \<Rightarrow> JNull | Some b \<Rightarrow> JBool b)"

definition of_integer :: "int option \<Rightarrow> jsval" where
  "of_integer x = (case x of None \<Rightarrow> JNull | Some n \<Rightarrow> JNum n)"

definition of_text :: "string option \<Rightarrow> jsval" where
  "of_text x = (case x of None \<Rightarrow> JNull | Some s \<Rightarrow> JStr s)"

definition of_timestamp :: "timestamp option \<Rightarrow> jsval" where
  "of_timestamp x = (case x of None \<Rightarrow> JNull | Some t \<Rightarrow> JNum (int t))"

fun read_col :: "col \<Rightarrow> config_row \<Rightarrow> jsval" where
  "read_col CursorModeEnabled row = of_boolean (c_cursor_mode_enabled row)"
| "read_col CursorSpeed row = of_integer (c_cursor_speed row)"
| "read_col ScrollSpeed row = of_integer (c_scroll_speed row)"
| "read_col AccessibilityProfile row = of_text (c_accessibility_profile row)"
| "read_col EnterHoldMs row = of_integer (c_enter_hold_ms row)"
| "read_col ExitHoldMs row = of_integer (c_exit_hold_ms row)"
| "read_col ClickCooldownMs row = of_integer (c_click_cooldown_ms row)"
| "read_col UpdatedAt row = of_timestamp (c_updated_at row)"

text \<open>Setting one named column: an unknown name and a refused value are errors.\<close>

definition set_column :: "string \<Rightarrow> jsval \<Rightarrow> config_row \<Rightarrow> db_error + config_row" where
  "set_column k v row =
     (case column_named k of None \<Rightarrow> Inl undefined_column | Some c \<Rightarrow> write_col c v row)"

text \<open>
  The object sent with an insert or an update names columns and their new values. The
  service only ever names the seven settings and \<open>updated_at\<close>; any other name is
  answered with an error here.
\<close>

fun apply_patch :: "(string \<times> jsval) list \<Rightarrow> config_row \<Rightarrow> db_error + config_row" where
  "apply_patch [] row = Inr row"
| "apply_patch ((k, v) # kvs) row =
     (case set_column k v row of Inl e \<Rightarrow> Inl e | Inr row' \<Rightarrow> apply_patch kvs row')"

text \<open>The JSON view of a stored row: what \<open>row[k]\<close> reads for a column \<open>k\<close>.\<close>

definition column :: "string \<Rightarrow> config_row \<Rightarrow> jsval" where
  "column k row = (case column_named k of None \<Rightarrow> JUndefined | Some c \<Rightarrow> read_col c row)"

text \<open>
  A value that a settings column stores as it is: a non-null value of the column's type,
  which for an INTEGER column is a number of 32 bits.
\<close>

definition has_type :: "string \<Rightarrow> jsval \<Rightarrow> bool" where
  "has_type k v =
     (case column_named k of
        Some CursorModeEnabled \<Rightarrow> (case v of JBool b \<Rightarrow> True | _ \<Rightarrow> False)
      | Some AccessibilityProfile \<Rightarrow> (case v of JStr s \<Rightarrow> True | _ \<Rightarrow> False)
      | Some UpdatedAt \<Rightarrow> False
      | Some c \<Rightarrow> (case v of JNum n \<Rightarrow> in_int32 n | _ \<Rightarrow> False)
      | None \<Rightarrow> False)"

text \<open>A new row before the inserted values are applied: the column DEFAULTs of the schema.\<close>

definition blank_config_row :: "uuid \<Rightarrow> uuid \<Rightarrow> timestamp \<Rightarrow> config_row" where
  "blank_config_row newId siteUuid now =
     \<lparr>c_id = newId, c_site_id = siteUuid,
      c_cursor_mode_enabled = Some False, c_cursor_speed = Some 10, c_scroll_speed = Some 10,
      c_accessibility_profile = Some ''standard'', c_enter_hold_ms = Some 1000,
      c_exit_hold_ms = Some 800, c_click_cooldown_ms = Some 300, c_updated_at = Some now\<rparr>"

definition select_site_config ::
  "(config_row list \<Rightarrow> db_error + 'r) \<Rightarrow> uuid \<Rightarrow> store \<Rightarrow> (db_error + 'r) \<times> store" where
  "select_site_config shape siteUuid st =
     (case begin_call (SiteConfigs, Select) st of
        (Fail e, st1) \<Rightarrow> (Inl e, st1)
      | (ev, st1) \<Rightarrow>
          (let st2 = rival ev st1
           in (shape (filter (\<lambda>c. c_site_id c = siteUuid) (site_configs st2)), st2)))"

text \<open>An insert into \<open>site_configs\<close>: \<open>site_id\<close> is UNIQUE and references an existing site.\<close>

definition insert_site_config ::
  "uuid \<Rightarrow> (string \<times> jsval) list \<Rightarrow> store \<Rightarrow> (db_error + config_row) \<times> store" where
  "insert_site_config siteUuid vals st =
     (case begin_call (SiteConfigs, Insert) st of
        (Fail e, st1) \<Rightarrow> (Inl e, st1)
      | (ev, st1) \<Rightarrow>
          (let st2 = rival ev st1 in
           if \<exists>c \<in> set (site_configs st2). c_site_id c = siteUuid then (Inl unique_violation, st2)
           else if \<not> (\<exists>r \<in> set (sites st2). s_id r = siteUuid) then (Inl foreign_key_violation, st2)
           else
             (case apply_patch vals
                     (blank_config_row (fresh (map c_id (site_configs st2))) siteUuid (clock st2)) of
                Inl e \<Rightarrow> (Inl e, st2)
              | Inr row \<Rightarrow> (Inr row, st2\<lparr>site_configs := site_configs st2 @ [row]\<rparr>))))"

text \<open>
  An update of the rows of one site, read back with \<open>.select('*').single()\<close>: when the
  rows it matches are not exactly one, or a value is refused, nothing is written.
\<close>

definition update_site_config ::
  "(string \<times> jsval) list \<Rightarrow> uuid \<Rightarrow> store \<Rightarrow> (db_error + config_row) \<times> store" where
  "update_site_config patch siteUuid st =
     (case begin_call (SiteConfigs, Update) st of
        (Fail e, st1) \<Rightarrow> (Inl e, st1)
      | (ev, st1) \<Rightarrow>
          (let st2 = rival ev st1 in
           case filter (\<lambda>c. c_site_id c = siteUuid) (site_configs st2) of
             [row] \<Rightarrow>
               (case apply_patch patch row of
                  Inl e \<Rightarrow> (Inl e, st2)
                | Inr row' \<Rightarrow>
                    (Inr row',
                     st2\<lparr>site_configs :=
                           map (\<lambda>c. if c_site_id c = siteUuid then row' else c) (site_configs st2)\<rparr>))
           | _ \<Rightarrow> (Inl pgrst116, st2)))"

section \<open>The site configuration service: \<open>services/accessibilityService.js\<close>\<close>

text \<open>
  Every \<open>throw new Error(...)\<close> of the service is one constructor; \<open>message_of\<close> gives the
  message that the public methods return as \<open>{success: false, error: message}\<close>. The
  checks for a store answer that carries neither data nor error have no branch here,
  since a store call of the model answers with a row or with an error.
\<close>

datatype service_error =
    InvalidSiteId
  | InvalidUserId
  | InvalidUpdates
  | QuerySiteFailed db_error
  | CreateSiteFailed db_error
  | QueryConfigFailed db_error
  | CreateConfigFailed db_error
  | SiteNotFound
  | VerifySiteFailed db_error
  | NoValidFields
  | UpdateConfigFailed db_error

fun message_of :: "service_error \<Rightarrow> string" where
  "message_of InvalidSiteId = ''Invalid siteId: must be a non-empty string''"
| "message_of InvalidUserId = ''Invalid userId: user authentication required''"
| "message_of InvalidUpdates = ''Invalid updates: must be an object''"
| "message_of (QuerySiteFailed e) = ''Failed to query site: '' @ err_message e"
| "message_of (CreateSiteFailed e) = ''Failed to create site: '' @ err_message e"
| "message_of (QueryConfigFailed e) = ''Failed to query config: '' @ err_message e"
| "message_of (CreateConfigFailed e) = ''Failed to create config: '' @ err_message e"
| "message_of SiteNotFound = ''Site not found or access denied''"
| "message_of (VerifySiteFailed e) = ''Failed to verify site: '' @ err_message e"
| "message_of NoValidFields = ''No valid fields to update''"
| "message_of (UpdateConfigFailed e) = ''Failed to update config: '' @ err_message e"

text \<open>\<open>_resolveSite(siteId, userId)\<close>: the primary key of the caller's site, created if absent.\<close>

definition resolveSite :: "string \<Rightarrow> uuid \<Rightarrow> store \<Rightarrow> (service_error + uuid) \<times> store" where
  "resolveSite siteId userId st =
     (case select_site maybeSingle siteId userId st of
        (Inl fetchError, st1) \<Rightarrow> (Inl (QuerySiteFailed fetchError), st1)
      | (Inr (Some existingSite), st1) \<Rightarrow> (Inr (s_id existingSite), st1)
      | (Inr None, st1) \<Rightarrow>
          (case insert_site siteId userId st1 of
             (Inl createError, st2) \<Rightarrow> (Inl (CreateSiteFailed createError), st2)
           | (Inr newSite, st2) \<Rightarrow> (Inr (s_id newSite), st2)))"

definition defaultConfig :: "(string \<times> jsval) list" where
  "defaultConfig =
     [(''cursor_mode_enabled'', JBool False),
      (''cursor_speed'', JNum 10),
      (''scroll_speed'', JNum 10),
      (''accessibility_profile'', JStr ''standard''),
      (''enter_hold_ms'', JNum 1000),
      (''exit_hold_ms'', JNum 800),
      (''click_cooldown_ms'', JNum 300)]"

text \<open>\<open>_resolveSiteConfig(siteUuid, siteIdString)\<close>: the stored row of the site, created
  with the defaults if absent. The second argument is only logged.\<close>

definition resolveSiteConfig :: "uuid \<Rightarrow> string \<Rightarrow> store \<Rightarrow> (service_error + config_row) \<times> store" where
  "resolveSiteConfig siteUuid siteIdString st =
     (case select_site_config maybeSingle siteUuid st of
        (Inl fetchError, st1) \<Rightarrow> (Inl (QueryConfigFailed fetchError), st1)
      | (Inr (Some existingConfig), st1) \<Rightarrow> (Inr existingConfig, st1)
      | (Inr None, st1) \<Rightarrow>
          (case insert_site_config siteUuid defaultConfig st1 of
             (Inl createError, st2) \<Rightarrow> (Inl (CreateConfigFailed createError), st2)
           | (Inr newConfig, st2) \<Rightarrow> (Inr newConfig, st2)))"

text \<open>The normalized configuration: seven fields, none of them missing.\<close>

record settings =
  cursor_mode_enabled :: bool
  cursor_speed :: int
  scroll_speed :: int
  accessibility_profile :: string
  enter_hold_ms :: int
  exit_hold_ms :: int
  click_cooldown_ms :: int

text \<open>\<open>_normalizeConfig(config)\<close>: \<open>x ?? d\<close> is \<open>d\<close> when \<open>x\<close> is \<open>null\<close> or \<open>undefined\<close>.\<close>

definition normalizeConfig :: "config_row \<Rightarrow> settings" where
  "normalizeConfig row =
     \<lparr>cursor_mode_enabled = (case c_cursor_mode_enabled row of None \<Rightarrow> False | Some b \<Rightarrow> b),
      cursor_speed = (case c_cursor_speed row of None \<Rightarrow> 10 | Some n \<Rightarrow> n),
      scroll_speed = (case c_scroll_speed row of None \<Rightarrow> 10 | Some n \<Rightarrow> n),
      accessibility_profile = (case c_accessibility_profile row of None \<Rightarrow> ''standard'' | Some s \<Rightarrow> s),
      enter_hold_ms = (case c_enter_hold_ms row of None \<Rightarrow> 1000 | Some n \<Rightarrow> n),
      exit_hold_ms = (case c_exit_hold_ms row of None \<Rightarrow> 800 | Some n \<Rightarrow> n),
      click_cooldown_ms = (case c_click_cooldown_ms row of None \<Rightarrow> 300 | Some n \<Rightarrow> n)\<rparr>"

definition default_settings :: settings where
  "default_settings =
     \<lparr>cursor_mode_enabled = False, cursor_speed = 10, scroll_speed = 10,
      accessibility_profile = ''standard'', enter_hold_ms = 1000, exit_hold_ms = 800,
      click_cooldown_ms = 300\<rparr>"

text \<open>The JSON view of a normalized configuration, and of the defaults.\<close>

fun field_of :: "col \<Rightarrow> settings \<Rightarrow> jsval" where
  "field_of CursorModeEnabled c = JBool (cursor_mode_enabled c)"
| "field_of CursorSpeed c = JNum (cursor_speed c)"
| "field_of ScrollSpeed c = JNum (scroll_speed c)"
| "field_of AccessibilityProfile c = JStr (accessibility_profile c)"
| "field_of EnterHoldMs c = JNum (enter_hold_ms c)"
| "field_of ExitHoldMs c = JNum (exit_hold_ms c)"
| "field_of ClickCooldownMs c = JNum (click_cooldown_ms c)"
| "field_of UpdatedAt c = JUndefined"

definition field :: "string \<Rightarrow> settings \<Rightarrow> jsval" where
  "field k c = (case column_named k of None \<Rightarrow> JUndefined | Some x \<Rightarrow> field_of x c)"

text \<open>The \<open>data\<close> of a successful answer: \<open>{site_id, config}\<close>.\<close>

record config_data =
  data_site_id :: string
  data_config :: settings

text \<open>
  \<open>getConfigBySiteId(siteId, userId)\<close>, the operation \<open>resolveConfig\<close> of the
  specification. The site identifier is any JSON value; the caller identity is a user
  id or absent.
\<close>

definition getConfigBySiteId ::
  "jsval \<Rightarrow> uuid option \<Rightarrow> store \<Rightarrow> (service_error + config_data) \<times> store" where
  "getConfigBySiteId siteId userId st =
     (case siteId of
        JStr s \<Rightarrow>
          if s = [] then (Inl InvalidSiteId, st)
          else
            (case userId of
               None \<Rightarrow> (Inl InvalidUserId, st)
             | Some u \<Rightarrow>
                 (case resolveSite s u st of
                    (Inl err, st1) \<Rightarrow> (Inl err, st1)
                  | (Inr siteUuid, st1) \<Rightarrow>
                      (case resolveSiteConfig siteUuid s st1 of
                         (Inl err, st2) \<Rightarrow> (Inl err, st2)
                       | (Inr cfg, st2) \<Rightarrow>
                           (Inr \<lparr>data_site_id = s, data_config = normalizeConfig cfg\<rparr>, st2))))
      | _ \<Rightarrow> (Inl InvalidSiteId, st))"

definition allowedFields :: "string list" where
  "allowedFields =
     [''cursor_mode_enabled'', ''cursor_speed'', ''scroll_speed'', ''accessibility_profile'',
      ''enter_hold_ms'', ''exit_hold_ms'', ''click_cooldown_ms'']"

text \<open>\<open>updates[key]\<close>: the value of a property, \<open>undefined\<close> when the object has none.\<close>

definition prop_of :: "(string \<times> jsval) list \<Rightarrow> string \<Rightarrow> jsval" where
  "prop_of kvs key = (case map_of kvs key of None \<Rightarrow> JUndefined | Some v \<Rightarrow> v)"

text \<open>The loop over \<open>allowedFields\<close> that fills \<open>sanitizedUpdates\<close>.\<close>

definition sanitizedUpdates :: "(string \<times> jsval) list \<Rightarrow> (string \<times> jsval) list" where
  "sanitizedUpdates kvs =
     map (\<lambda>key. (key, prop_of kvs key)) (filter (\<lambda>key. prop_of kvs key \<noteq> JUndefined) allowedFields)"

text \<open>
  \<open>updateConfig(siteId, userId, updates)\<close>. \<open>updates\<close> is any JSON value; only an
  object passes \<open>!updates || typeof updates !== 'object'\<close> (arrays, which would pass
  too and carry none of the whitelisted keys, are not among the JSON values here).
\<close>

definition updateConfig ::
  "jsval \<Rightarrow> uuid option \<Rightarrow> jsval \<Rightarrow> store \<Rightarrow> (service_error + config_data) \<times> store" where
  "updateConfig siteId userId updates st =
     (case siteId of
        JStr s \<Rightarrow>
          if s = [] then (Inl InvalidSiteId, st)
          else
            (case userId of
               None \<Rightarrow> (Inl InvalidUserId, st)
             | Some u \<Rightarrow>
                 (case updates of
                    JObj kvs \<Rightarrow>
                      (case select_site single s u st of
                         (Inl siteError, st1) \<Rightarrow>
                           (Inl (if err_code siteError = ''PGRST116'' then SiteNotFound
                                 else VerifySiteFailed siteError), st1)
                       | (Inr site, st1) \<Rightarrow>
                           if sanitizedUpdates kvs = [] then (Inl NoValidFields, st1)
                           else
                             (case update_site_config
                                     (sanitizedUpdates kvs @ [(''updated_at'', JNum (int (clock st1)))])
                                     (s_id site) st1 of
                                (Inl updateError, st2) \<Rightarrow> (Inl (UpdateConfigFailed updateError), st2)
                              | (Inr updatedConfig, st2) \<Rightarrow>
                                  (Inr \<lparr>data_site_id = s, data_config = normalizeConfig updatedConfig\<rparr>,
                                   st2)))
                  | _ \<Rightarrow> (Inl InvalidUpdates, st)))
      | _ \<Rightarrow> (Inl InvalidSiteId, st))"

section \<open>The credential resolver: \<open>middleware/apiKeyAuth.js\<close>\<close>

text \<open>
  A rejection is the HTTP status and the \<open>error\<close> string of the JSON body. The four
  failure kinds of the resolver are the four rejections the middleware sends.
\<close>

record rejection =
  status :: nat
  error :: string

definition MissingCredential :: rejection where
  "MissingCredential = \<lparr>status = 401, error = ''Authentication required''\<rparr>"

definition InvalidCredential :: rejection where
  "InvalidCredential = \<lparr>status = 403, error = ''Invalid API key''\<rparr>"

definition DisabledCredential :: rejection where
  "DisabledCredential = \<lparr>status = 403, error = ''API key disabled''\<rparr>"

definition ResolverUnavailable :: rejection where
  "ResolverUnavailable = \<lparr>status = 500, error = ''Authentication error''\<rparr>"

text \<open>\<open>req.user\<close>, as the middleware attaches it before calling \<open>next()\<close>.\<close>

record user =
  userId :: uuid
  apiKeyId :: uuid

text \<open>
  The header \<open>x-api-key\<close> is a string or absent. The update of \<open>last_used_at\<close> is not
  awaited and its error is only logged: its outcome is dropped here. The \<open>catch\<close> of the
  middleware (500, "Internal server error") has no branch: a store call of the model
  answers with a row or with an error and throws nothing.
\<close>

definition apiKeyAuth :: "string option \<Rightarrow> store \<Rightarrow> (rejection + user) \<times> store" where
  "apiKeyAuth header st =
     (case header of
        None \<Rightarrow> (Inl MissingCredential, st)
      | Some apiKey \<Rightarrow>
          if apiKey = [] then (Inl MissingCredential, st)
          else
            (case select_api_key apiKey st of
               (Inl err, st1) \<Rightarrow>
                 if err_code err = ''PGRST116'' then (Inl InvalidCredential, st1)
                 else (Inl ResolverUnavailable, st1)
             | (Inr data, st1) \<Rightarrow>
                 if ak_is_active data \<noteq> Some True then (Inl DisabledCredential, st1)
                 else
                   (let st2 = snd (update_last_used_at (clock st1) (ak_id data) st1)
                    in (Inr \<lparr>userId = ak_user_id data, apiKeyId = ak_id data\<rparr>, st2))))"

section \<open>Sample stores\<close>

text \<open>
  Small stores on which the properties below are run: a store with no rows; a store with
  three credentials (an active one, a disabled one, and an active one whose expiry lies
  before the clock); a store where caller 7 owns the site \<open>shop\<close>, whose stored
  configuration has \<open>enter_hold_ms\<close> null; and the empty store in the race where a
  concurrent handler creates the site between this handler's lookup and its insert.
\<close>

definition empty_store :: store where
  "empty_store = \<lparr>api_keys = [], sites = [], site_configs = [], clock = 100, script = [], calls = []\<rparr>"

definition key_store :: store where
  "key_store =
     \<lparr>api_keys =
        [\<lparr>ak_id = 1, ak_api_key = ''live-key'', ak_user_id = 7, ak_is_active = Some True,
          ak_last_used_at = None, ak_expires_at = None\<rparr>,
         \<lparr>ak_id = 2, ak_api_key = ''old-key'', ak_user_id = 8, ak_is_active = Some False,
          ak_last_used_at = None, ak_expires_at = None\<rparr>,
         \<lparr>ak_id = 3, ak_api_key = ''stale-key'', ak_user_id = 9, ak_is_active = Some True,
          ak_last_used_at = None, ak_expires_at = Some 50\<rparr>],
      sites = [], site_configs = [], clock = 100, script = [], calls = []\<rparr>"

definition shop_site :: site_row where
  "shop_site = \<lparr>s_id = 1, s_site_id = ''shop'', s_user_id = 7\<rparr>"

definition shop_config :: config_row where
  "shop_config =
     \<lparr>c_id = 1, c_site_id = 1,
      c_cursor_mode_enabled = Some True, c_cursor_speed = Some 12, c_scroll_speed = Some 15,
      c_accessibility_profile = Some ''standard'', c_enter_hold_ms = None,
      c_exit_hold_ms = Some 800, c_click_cooldown_ms = Some 300, c_updated_at = Some 40\<rparr>"

definition shop_store :: store where
  "shop_store =
     \<lparr>api_keys = [], sites = [shop_site], site_configs = [shop_config], clock = 100,
      script = [], calls = []\<rparr>"

definition racing_store :: store where
  "racing_store = empty_store\<lparr>script := [Proceed, RivalInsertSite ''shop'' 7]\<rparr>"

text \<open>
  Update payloads: the round trip of the specification (two whitelisted fields and one
  unsupported key), a whitelisted field set to \<open>null\<close>, and a whitelisted field set to
  the first number that an INTEGER column does not hold, next to an unsupported key.
\<close>

definition test_payload :: "(string \<times> jsval) list" where
  "test_payload =
     [(''cursor_speed'', JNum 15), (''scroll_speed'', JNum 20), (''unsupported_field'', JStr ''x'')]"

definition null_payload :: "(string \<times> jsval) list" where
  "null_payload = [(''cursor_speed'', JNull)]"

definition big_payload :: "(string \<times> jsval) list" where
  "big_payload = [(''cursor_speed'', JNum 2147483648), (''unsupported_field'', JStr ''x'')]"

text \<open>An error of the store that is not the answer for a missing row.\<close>

definition storage_outage :: db_error where
  "storage_outage = \<lparr>err_code = ''08006'', err_message = ''connection failure''\<rparr>"

section \<open>Store calls that nothing disturbs\<close>

lemma begin_call_quiet:
  "script st = [] \<Longrightarrow> begin_call c st = (Proceed, st\<lparr>calls := calls st @ [c]\<rparr>)"
  by (simp add: begin_call_def)

lemma select_api_key_quiet:
  "script st = [] \<Longrightarrow>
   select_api_key k st =
     (single (filter (\<lambda>r. ak_api_key r = k) (api_keys st)), st\<lparr>calls := calls st @ [(ApiKeys, Select)]\<rparr>)"
  by (simp add: select_api_key_def begin_call_quiet rival_def)

lemma select_api_key_failed:
  "script st = Fail e # es \<Longrightarrow> fst (select_api_key k st) = Inl e"
  by (simp add: select_api_key_def begin_call_def)

lemma update_last_used_at_quiet:
  "script st = [] \<Longrightarrow>
   update_last_used_at now i st =
     (Inr (), st\<lparr>calls := calls st @ [(ApiKeys, Update)],
                 api_keys := map (\<lambda>r. if ak_id r = i then r\<lparr>ak_last_used_at := Some now\<rparr> else r) (api_keys st)\<rparr>)"
  by (simp add: update_last_used_at_def begin_call_quiet rival_def)

lemma select_site_quiet:
  "script st = [] \<Longrightarrow>
   select_site shape s u st =
     (shape (filter (\<lambda>r. s_site_id r = s \<and> s_user_id r = u) (sites st)),
      st\<lparr>calls := calls st @ [(Sites, Select)]\<rparr>)"
  by (simp add: select_site_def begin_call_quiet rival_def)

lemma insert_site_quiet:
  "script st = [] \<Longrightarrow> insert_site s u st = add_site s u (st\<lparr>calls := calls st @ [(Sites, Insert)]\<rparr>)"
  by (simp add: insert_site_def begin_call_quiet rival_def)

lemma select_site_config_quiet:
  "script st = [] \<Longrightarrow>
   select_site_config shape i st =
     (shape (filter (\<lambda>c. c_site_id c = i) (site_configs st)),
      st\<lparr>calls := calls st @ [(SiteConfigs, Select)]\<rparr>)"
  by (simp add: select_site_config_def begin_call_quiet rival_def)

lemma insert_site_config_quiet:
  "script st = [] \<Longrightarrow>
   insert_site_config i vals st =
     (let st2 = st\<lparr>calls := calls st @ [(SiteConfigs, Insert)]\<rparr> in
      if \<exists>c \<in> set (site_configs st). c_site_id c = i then (Inl unique_violation, st2)
      else if \<not> (\<exists>r \<in> set (sites st). s_id r = i) then (Inl foreign_key_violation, st2)
      else (case apply_patch vals (blank_config_row (fresh (map c_id (site_configs st))) i (clock st)) of
              Inl e \<Rightarrow> (Inl e, st2)
            | Inr row \<Rightarrow> (Inr row, st2\<lparr>site_configs := site_configs st @ [row]\<rparr>)))"
  by (simp add: insert_site_config_def begin_call_quiet rival_def Let_def split: sum.splits)

lemma update_site_config_quiet:
  "script st = [] \<Longrightarrow>
   update_site_config patch i st =
     (let st2 = st\<lparr>calls := calls st @ [(SiteConfigs, Update)]\<rparr> in
      case filter (\<lambda>c. c_site_id c = i) (site_configs st) of
        [row] \<Rightarrow>
          (case apply_patch patch row of
             Inl e \<Rightarrow> (Inl e, st2)
           | Inr row' \<Rightarrow>
               (Inr row',
                st2\<lparr>site_configs := map (\<lambda>c. if c_site_id c = i then row' else c) (site_configs st)\<rparr>))
      | _ \<Rightarrow> (Inl pgrst116, st2))"
  by (simp add: update_site_config_def begin_call_quiet rival_def Let_def
      split: sum.splits list.splits)

lemma select_site_calls:
  "calls (snd (select_site shape s u st)) = calls st @ [(Sites, Select)]"
  by (simp add: select_site_def begin_call_def rival_def add_site_def Let_def
      split: list.splits event.splits)

lemma insert_site_calls:
  "calls (snd (insert_site s u st)) = calls st @ [(Sites, Insert)]"
  by (simp add: insert_site_def begin_call_def rival_def add_site_def Let_def
      split: list.splits event.splits)

lemma fresh_gt: "i \<in> set ids \<Longrightarrow> i < fresh ids"
  by (induction ids) (auto simp: fresh_def)

lemma single_map:
  "single (map g rows) = (case single rows of Inl e \<Rightarrow> Inl e | Inr r \<Rightarrow> Inr (g r))"
  by (cases rows rule: list.exhaust [case_product list.exhaust]) (auto simp: single_def split: list.splits)

lemma updateConfig_keeps_sites:
  assumes "script st = []"
  shows "script (snd (updateConfig sid uid upd st)) = []
         \<and> sites (snd (updateConfig sid uid upd st)) = sites st
         \<and> api_keys (snd (updateConfig sid uid upd st)) = api_keys st"
  using assms
  by (simp add: updateConfig_def select_site_quiet update_site_config_quiet Let_def
      split: jsval.splits option.splits sum.splits list.splits prod.splits)

section \<open>Columns, patches and normalization\<close>

lemma column_named_name: "column_named k = Some c \<Longrightarrow> k = name_of c"
  by (simp add: column_named_def split: if_splits)

lemma column_named_name_of [simp]: "column_named (name_of c) = Some c"
  by (cases c) (simp_all add: column_named_def)

lemma write_col_ids:
  "write_col c v row = Inr row' \<Longrightarrow> c_id row' = c_id row \<and> c_site_id row' = c_site_id row"
  by (cases c) (auto simp: map_sum_def split: sum.splits)

lemma write_read_same: "write_col c v row = Inr row' \<Longrightarrow> read_col c row' = v"
  by (cases c; cases v)
     (auto simp: as_boolean_def as_integer_def as_text_def as_timestamp_def of_boolean_def
        of_integer_def of_text_def of_timestamp_def split: if_splits)

lemma write_read_other:
  "write_col c v row = Inr row' \<Longrightarrow> c' \<noteq> c \<Longrightarrow> read_col c' row' = read_col c' row"
  by (cases c; cases c') (auto simp: map_sum_def split: sum.splits)

lemma set_column_ids:
  "set_column k v row = Inr row' \<Longrightarrow> c_id row' = c_id row \<and> c_site_id row' = c_site_id row"
  by (auto simp: set_column_def write_col_ids split: option.splits)

lemma set_column_column:
  assumes "set_column k v row = Inr row'"
  shows "column k' row' = (if k' = k then v else column k' row)"
proof -
  from assms obtain c where c: "column_named k = Some c" "write_col c v row = Inr row'"
    by (auto simp: set_column_def split: option.splits)
  show ?thesis
  proof (cases "column_named k'")
    case None
    with c show ?thesis by (auto simp: column_def)
  next
    case (Some c')
    show ?thesis
    proof (cases "c' = c")
      case True
      with Some c have "k' = k" by (auto dest: column_named_name)
      with c show ?thesis by (simp add: column_def write_read_same)
    next
      case False
      with Some c have "k' \<noteq> k" by auto
      with Some c False show ?thesis by (simp add: column_def write_read_other)
    qed
  qed
qed

lemma apply_patch_ids:
  "apply_patch p row = Inr row' \<Longrightarrow> c_id row' = c_id row \<and> c_site_id row' = c_site_id row"
proof (induction p arbitrary: row)
  case Nil
  then show ?case by simp
next
  case (Cons kv p)
  obtain k v where kv: "kv = (k, v)" by (cases kv)
  with Cons.prems obtain r1 where r1: "set_column k v row = Inr r1" "apply_patch p r1 = Inr row'"
    by (auto split: sum.splits)
  from Cons.IH [OF r1(2)] set_column_ids [OF r1(1)] show ?case by simp
qed

lemma apply_patch_column:
  "apply_patch p row = Inr row' \<Longrightarrow> distinct (map fst p) \<Longrightarrow>
   column k row' = (case map_of p k of None \<Rightarrow> column k row | Some v \<Rightarrow> v)
   \<and> c_id row' = c_id row \<and> c_site_id row' = c_site_id row"
proof (induction p arbitrary: row)
  case Nil
  then show ?case by simp
next
  case (Cons kv p)
  obtain k0 v0 where kv: "kv = (k0, v0)" by (cases kv)
  from Cons.prems(1) kv obtain r1 where
    r1: "set_column k0 v0 row = Inr r1" "apply_patch p r1 = Inr row'"
    by (auto split: sum.splits)
  from Cons.prems(2) kv have d: "distinct (map fst p)" "map_of p k0 = None"
    by (auto simp: map_of_eq_None_iff)
  note ih = Cons.IH [OF r1(2) d(1)]
  show ?case
    using ih set_column_column [OF r1(1), of k] set_column_ids [OF r1(1)] d(2) kv
    by (auto split: option.splits)
qed

lemma apply_patch_ok:
  "(\<forall>(k, v) \<in> set p. \<forall>row. \<exists>row'. set_column k v row = Inr row') \<Longrightarrow>
   \<exists>row'. apply_patch p row = Inr row'"
proof (induction p arbitrary: row)
  case Nil
  then show ?case by simp
next
  case (Cons kv p)
  obtain k0 v0 where kv: "kv = (k0, v0)" by (cases kv)
  with Cons.prems obtain r1 where "set_column k0 v0 row = Inr r1" by fastforce
  moreover from Cons.prems have "\<exists>row'. apply_patch p r1 = Inr row'"
    by (intro Cons.IH) auto
  ultimately show ?case using kv by auto
qed

lemma set_column_accepts:
  assumes "k \<in> set allowedFields" "v = JNull \<or> has_type k v"
  shows "\<exists>row'. set_column k v row = Inr row'"
proof -
  from assms(1) obtain c where c: "column_named k = Some c" "c \<noteq> UpdatedAt"
    by (auto simp: allowedFields_def column_named_def)
  with assms(2) show ?thesis
    by (cases c; cases v)
       (auto simp: set_column_def has_type_def as_boolean_def as_integer_def as_text_def)
qed

lemma set_updated_at: "\<exists>row'. set_column ''updated_at'' (JNum (int t)) row = Inr row'"
  by (simp add: set_column_def column_named_def as_timestamp_def)

lemma allowedFields_distinct: "distinct allowedFields" "''updated_at'' \<notin> set allowedFields"
  by (simp_all add: allowedFields_def)

lemma map_fst_sanitized:
  "map fst (sanitizedUpdates kvs) = filter (\<lambda>key. prop_of kvs key \<noteq> JUndefined) allowedFields"
  by (simp add: sanitizedUpdates_def comp_def)

lemma map_of_sanitized:
  "map_of (sanitizedUpdates kvs) k
     = (if k \<in> set allowedFields \<and> prop_of kvs k \<noteq> JUndefined then Some (prop_of kvs k) else None)"
proof -
  have "map_of (map (\<lambda>key. (key, f key)) ks) k = (if k \<in> set ks then Some (f k) else None)"
    for f :: "string \<Rightarrow> jsval" and ks
    by (induction ks) auto
  then show ?thesis by (simp add: sanitizedUpdates_def)
qed

lemma patch_distinct:
  "distinct (map fst (sanitizedUpdates kvs @ [(''updated_at'', v)]))"
  using allowedFields_distinct by (simp add: map_fst_sanitized)

lemma map_of_patch:
  "map_of (sanitizedUpdates kvs @ [(''updated_at'', v)]) k
     = (if k \<in> set allowedFields \<and> prop_of kvs k \<noteq> JUndefined then Some (prop_of kvs k)
        else if k = ''updated_at'' then Some v else None)"
  by (simp add: map_of_sanitized map_add_def)

lemma sanitizedUpdates_Nil [simp]: "sanitizedUpdates [] = []"
  by (simp add: sanitizedUpdates_def prop_of_def)

lemma prop_of_absent: "k \<notin> fst ` set kvs \<Longrightarrow> prop_of kvs k = JUndefined"
  by (simp add: prop_of_def map_of_eq_None_iff [THEN iffD2])

lemma apply_defaultConfig:
  "apply_patch defaultConfig (blank_config_row a b c) = Inr (blank_config_row a b c)"
  by (simp add: defaultConfig_def blank_config_row_def set_column_def column_named_def
        as_boolean_def as_integer_def as_text_def in_int32_def)

lemma normalize_blank: "normalizeConfig (blank_config_row a b c) = default_settings"
  by (simp add: normalizeConfig_def blank_config_row_def default_settings_def)

lemma allowed_column:
  "k \<in> set allowedFields \<Longrightarrow> \<exists>c. column_named k = Some c \<and> c \<noteq> UpdatedAt"
  by (auto simp: allowedFields_def column_named_def)

lemma normalize_field_of:
  "c \<noteq> UpdatedAt \<Longrightarrow>
   field_of c (normalizeConfig row)
     = (if read_col c row = JNull then field_of c default_settings else read_col c row)"
  by (cases c)
     (auto simp: normalizeConfig_def default_settings_def of_boolean_def of_integer_def of_text_def
        split: option.splits)

lemma normalize_field:
  "k \<in> set allowedFields \<Longrightarrow>
   field k (normalizeConfig row) = (if column k row = JNull then field k default_settings else column k row)"
  by (auto simp: field_def column_def normalize_field_of dest!: allowed_column)

lemma field_outside: "k \<notin> set allowedFields \<Longrightarrow> field k c = JUndefined"
  by (auto simp: allowedFields_def field_def column_named_def)

section \<open>The constraints of the schema are kept\<close>

text \<open>
  The theorems below assume of the tables what the schema guarantees: site identifiers
  are unique, and every configuration belongs to a site. These constraints hold in the
  empty store, and a resolution or an update that nothing disturbs keeps them.
\<close>

lemma store_ok_calls [simp]: "store_ok (st\<lparr>calls := x\<rparr>) = store_ok st"
  by (simp add: store_ok_def)

lemma store_ok_empty: "store_ok empty_store"
  by (simp add: store_ok_def empty_store_def)

lemma fresh_notin: "fresh ids \<notin> set ids"
  using fresh_gt [of "fresh ids" ids] by auto

lemma add_site_ok:
  assumes "store_ok st" "add_site s u st = (r, st')"
  shows "store_ok st' \<and> script st' = script st \<and> (\<forall>row. r = Inr row \<longrightarrow> row \<in> set (sites st'))"
proof (cases "\<exists>r \<in> set (sites st). s_site_id r = s")
  case True
  with assms show ?thesis by (auto simp: add_site_def)
next
  case False
  let ?row = "\<lparr>s_id = fresh (map s_id (sites st)), s_site_id = s, s_user_id = u\<rparr>"
  from False assms(2) have st': "st' = st\<lparr>sites := sites st @ [?row]\<rparr>" "r = Inr ?row"
    by (auto simp: add_site_def Let_def)
  have "s_id ?row \<notin> set (map s_id (sites st))"
    using fresh_notin [of "map s_id (sites st)"] by simp
  moreover have "s_site_id ?row \<notin> set (map s_site_id (sites st))"
    using False by auto
  ultimately show ?thesis
    using assms(1) unfolding st' store_ok_def
    by (auto simp: list_all_iff)
qed

lemma resolveSite_ok:
  assumes "script st = []" "store_ok st" "resolveSite s u st = (r, st')"
  shows "script st' = [] \<and> store_ok st' \<and> (\<forall>i. r = Inr i \<longrightarrow> i \<in> s_id ` set (sites st'))"
proof (cases "filter (\<lambda>r. s_site_id r = s \<and> s_user_id r = u) (sites st)")
  case Nil
  let ?st1 = "st\<lparr>calls := calls st @ [(Sites, Select)]\<rparr>"
  let ?st2 = "?st1\<lparr>calls := calls ?st1 @ [(Sites, Insert)]\<rparr>"
  obtain r2 st2 where a: "add_site s u ?st2 = (r2, st2)"
    by (cases "add_site s u ?st2")
  from add_site_ok [OF _ a] assms(1,2) have
    ok: "store_ok st2" "script st2 = []" "\<forall>row. r2 = Inr row \<longrightarrow> row \<in> set (sites st2)"
    by simp_all
  from Nil assms(1,3) a have "st' = st2" "r = (case r2 of Inl e \<Rightarrow> Inl (CreateSiteFailed e) | Inr row \<Rightarrow> Inr (s_id row))"
    by (auto simp: resolveSite_def select_site_quiet maybeSingle_def insert_site_quiet split: sum.splits)
  with ok show ?thesis
    by (auto split: sum.splits)
next
  case (Cons x xs)
  then have "x \<in> set (sites st)"
    by (metis filter_is_subset list.set_intros(1) subsetD)
  with Cons assms show ?thesis
    by (cases xs) (auto simp: resolveSite_def select_site_quiet maybeSingle_def)
qed

lemma resolveSiteConfig_ok:
  assumes "script st = []" "store_ok st" "i \<in> s_id ` set (sites st)"
    and "resolveSiteConfig i s st = (r, st')"
  shows "script st' = [] \<and> store_ok st'"
proof (cases "filter (\<lambda>c. c_site_id c = i) (site_configs st)")
  case Nil
  then have none: "\<forall>c \<in> set (site_configs st). c_site_id c \<noteq> i"
    by (simp add: filter_empty_conv)
  let ?row = "blank_config_row (fresh (map c_id (site_configs st))) i (clock st)"
  have i: "c_site_id ?row = i"
    by (simp add: blank_config_row_def)
  have "\<exists>r \<in> set (sites st). s_id r = i"
    using assms(3) by auto
  with Nil none assms(1) have
    "resolveSiteConfig i s st
       = (Inr ?row, st\<lparr>calls := calls st @ [(SiteConfigs, Select), (SiteConfigs, Insert)],
                       site_configs := site_configs st @ [?row]\<rparr>)"
    by (simp add: resolveSiteConfig_def select_site_config_quiet maybeSingle_def
          insert_site_config_quiet apply_defaultConfig Let_def)
  with assms(4) have st': "st' = st\<lparr>calls := calls st @ [(SiteConfigs, Select), (SiteConfigs, Insert)],
                       site_configs := site_configs st @ [?row]\<rparr>"
    by simp
  show ?thesis
    using assms(1,2,3) none i unfolding st' store_ok_def
    by (auto simp: list_all_iff)
next
  case (Cons x xs)
  with assms show ?thesis
    by (cases xs) (auto simp: resolveSiteConfig_def select_site_config_quiet maybeSingle_def)
qed

lemma getConfigBySiteId_keeps_store_ok:
  assumes "script st = []" "store_ok st"
  shows "script (snd (getConfigBySiteId sid uid st)) = []
         \<and> store_ok (snd (getConfigBySiteId sid uid st))"
proof (cases "\<exists>s u. sid = JStr s \<and> s \<noteq> [] \<and> uid = Some u")
  case False
  with assms show ?thesis
    by (auto simp: getConfigBySiteId_def split: jsval.splits option.splits)
next
  case True
  then obtain s u where su: "sid = JStr s" "s \<noteq> []" "uid = Some u" by blast
  obtain r1 st1 where r1: "resolveSite s u st = (r1, st1)"
    by (cases "resolveSite s u st")
  note ok1 = resolveSite_ok [OF assms r1]
  show ?thesis
  proof (cases r1)
    case (Inl e)
    with su r1 ok1 show ?thesis by (simp add: getConfigBySiteId_def)
  next
    case (Inr i)
    obtain r2 st2 where r2: "resolveSiteConfig i s st1 = (r2, st2)"
      by (cases "resolveSiteConfig i s st1")
    from ok1 Inr have "script st1 = []" "store_ok st1" "i \<in> s_id ` set (sites st1)"
      by simp_all
    from resolveSiteConfig_ok [OF this r2] su r1 r2 Inr show ?thesis
      by (auto simp: getConfigBySiteId_def split: sum.splits)
  qed
qed

lemma update_site_config_ok:
  assumes "script st = []" "store_ok st" "update_site_config p i st = (r, st')"
  shows "script st' = [] \<and> store_ok st'"
proof (cases "\<exists>row row'. filter (\<lambda>c. c_site_id c = i) (site_configs st) = [row] \<and> apply_patch p row = Inr row'")
  case False
  with assms show ?thesis
    by (auto simp: update_site_config_quiet Let_def split: list.splits sum.splits)
next
  case True
  then obtain row row' where
    row: "filter (\<lambda>c. c_site_id c = i) (site_configs st) = [row]" "apply_patch p row = Inr row'"
    by blast
  have "row \<in> set (filter (\<lambda>c. c_site_id c = i) (site_configs st))"
    by (simp add: row(1))
  then have "c_site_id row = i" by simp
  have ids: "c_site_id row' = i"
    using apply_patch_ids [OF row(2)] \<open>c_site_id row = i\<close> by simp
  have m: "map (c_site_id \<circ> (\<lambda>c. if c_site_id c = i then row' else c)) (site_configs st)
             = map c_site_id (site_configs st)"
    using ids by (simp add: comp_def cong: map_cong)
  have st': "st' = st\<lparr>calls := calls st @ [(SiteConfigs, Update)],
                     site_configs := map (\<lambda>c. if c_site_id c = i then row' else c) (site_configs st)\<rparr>"
    using assms(1,3) row by (simp add: update_site_config_quiet)
  have "list_all (\<lambda>c. c_site_id c \<in> s_id ` set (sites st))
          (map (\<lambda>c. if c_site_id c = i then row' else c) (site_configs st))"
    unfolding list_all_iff
  proof
    fix c'
    assume "c' \<in> set (map (\<lambda>c. if c_site_id c = i then row' else c) (site_configs st))"
    then obtain c where c: "c \<in> set (site_configs st)" "c' = (if c_site_id c = i then row' else c)"
      by auto
    from c(1) assms(2) have "c_site_id c \<in> s_id ` set (sites st)"
      by (simp add: store_ok_def list_all_iff)
    with c(2) ids show "c_site_id c' \<in> s_id ` set (sites st)"
      by (cases "c_site_id c = i") simp_all
  qed
  with assms(1,2) show ?thesis
    unfolding st' by (simp add: store_ok_def m)
qed

lemma updateConfig_keeps_store_ok:
  assumes "script st = []" "store_ok st"
  shows "script (snd (updateConfig sid uid upd st)) = []
         \<and> store_ok (snd (updateConfig sid uid upd st))"
proof (cases "\<exists>s u kvs. sid = JStr s \<and> s \<noteq> [] \<and> uid = Some u \<and> upd = JObj kvs")
  case False
  with assms show ?thesis
    by (auto simp: updateConfig_def split: jsval.splits option.splits)
next
  case True
  then obtain s u kvs where in_ok: "sid = JStr s" "s \<noteq> []" "uid = Some u" "upd = JObj kvs"
    by blast
  let ?st1 = "st\<lparr>calls := calls st @ [(Sites, Select)]\<rparr>"
  let ?p = "sanitizedUpdates kvs @ [(''updated_at'', JNum (int (clock ?st1)))]"
  have st1: "script ?st1 = []" "store_ok ?st1"
    using assms by simp_all
  show ?thesis
  proof (cases "single (filter (\<lambda>r. s_site_id r = s \<and> s_user_id r = u) (sites st))")
    case (Inl e)
    with in_ok assms show ?thesis
      by (simp add: updateConfig_def select_site_quiet)
  next
    case (Inr site)
    obtain r st2 where u2: "update_site_config ?p (s_id site) ?st1 = (r, st2)"
      by (cases "update_site_config ?p (s_id site) ?st1")
    from update_site_config_ok [OF st1 u2] have "script st2 = [] \<and> store_ok st2" .
    with Inr in_ok assms u2 show ?thesis
      by (cases r) (simp_all add: updateConfig_def select_site_quiet)
  qed
qed

section \<open>The credential resolver classifies its input\<close>

lemma rejections_distinct:
  "MissingCredential \<noteq> InvalidCredential" "InvalidCredential \<noteq> DisabledCredential"
  "ResolverUnavailable \<noteq> InvalidCredential" "ResolverUnavailable \<noteq> DisabledCredential"
  "MissingCredential \<noteq> DisabledCredential" "MissingCredential \<noteq> ResolverUnavailable"
  by (simp_all add: MissingCredential_def InvalidCredential_def DisabledCredential_def
        ResolverUnavailable_def)

text \<open>
  Claim C1. The credential resolver classifies every input: an absent or empty credential
  is MissingCredential; a non-empty credential that no row of \<open>api_keys\<close> carries is
  InvalidCredential; a credential whose row has \<open>is_active = false\<close> is
  DisabledCredential; a lookup that the store fails with an error (any error other than
  PGRST116, PostgREST's answer for "no row") is ResolverUnavailable and never
  InvalidCredential; a credential whose row is active succeeds with the caller identity
  and the credential id of that row.
\<close>

theorem authenticate_classifies:
  "((header = None \<or> header = Some []) \<longrightarrow> fst (apiKeyAuth header st) = Inl MissingCredential)
   \<and> (k \<noteq> [] \<and> script st = [] \<and> (\<forall>r \<in> set (api_keys st). ak_api_key r \<noteq> k)
        \<longrightarrow> fst (apiKeyAuth (Some k) st) = Inl InvalidCredential)
   \<and> (k \<noteq> [] \<and> script st = [] \<and> filter (\<lambda>r. ak_api_key r = k) (api_keys st) = [row]
        \<and> ak_is_active row = Some False
        \<longrightarrow> fst (apiKeyAuth (Some k) st) = Inl DisabledCredential)
   \<and> (k \<noteq> [] \<and> script st = Fail e # es \<and> err_code e \<noteq> ''PGRST116''
        \<longrightarrow> fst (apiKeyAuth (Some k) st) = Inl ResolverUnavailable
            \<and> fst (apiKeyAuth (Some k) st) \<noteq> Inl InvalidCredential)
   \<and> (k \<noteq> [] \<and> script st = [] \<and> filter (\<lambda>r. ak_api_key r = k) (api_keys st) = [row]
        \<and> ak_is_active row = Some True
        \<longrightarrow> fst (apiKeyAuth (Some k) st) = Inr \<lparr>userId = ak_user_id row, apiKeyId = ak_id row\<rparr>)"
proof (intro conjI impI)
  assume "header = None \<or> header = Some []"
  then show "fst (apiKeyAuth header st) = Inl MissingCredential"
    by (auto simp: apiKeyAuth_def)
next
  assume a: "k \<noteq> [] \<and> script st = [] \<and> (\<forall>r \<in> set (api_keys st). ak_api_key r \<noteq> k)"
  then have "filter (\<lambda>r. ak_api_key r = k) (api_keys st) = []"
    by (simp add: filter_empty_conv)
  with a show "fst (apiKeyAuth (Some k) st) = Inl InvalidCredential"
    by (simp add: apiKeyAuth_def select_api_key_quiet single_def pgrst116_def)
next
  assume "k \<noteq> [] \<and> script st = [] \<and> filter (\<lambda>r. ak_api_key r = k) (api_keys st) = [row]
        \<and> ak_is_active row = Some False"
  then show "fst (apiKeyAuth (Some k) st) = Inl DisabledCredential"
    by (simp add: apiKeyAuth_def select_api_key_quiet single_def)
next
  assume a: "k \<noteq> [] \<and> script st = Fail e # es \<and> err_code e \<noteq> ''PGRST116''"
  then have "fst (select_api_key k st) = Inl e"
    by (simp add: select_api_key_failed)
  with a show "fst (apiKeyAuth (Some k) st) = Inl ResolverUnavailable"
    by (cases "select_api_key k st") (simp add: apiKeyAuth_def)
  then show "fst (apiKeyAuth (Some k) st) \<noteq> Inl InvalidCredential"
    by (simp add: rejections_distinct)
next
  assume "k \<noteq> [] \<and> script st = [] \<and> filter (\<lambda>r. ak_api_key r = k) (api_keys st) = [row]
        \<and> ak_is_active row = Some True"
  then show "fst (apiKeyAuth (Some k) st) = Inr \<lparr>userId = ak_user_id row, apiKeyId = ak_id row\<rparr>"
    by (simp add: apiKeyAuth_def select_api_key_quiet single_def)
qed

text \<open>The five classes on the store of three credentials, the fourth with the lookup failed.\<close>

theorem authenticate_classifies_witness:
  "fst (apiKeyAuth None key_store) = Inl MissingCredential
   \<and> fst (apiKeyAuth (Some []) key_store) = Inl MissingCredential
   \<and> fst (apiKeyAuth (Some ''not-a-real-token'') key_store) = Inl InvalidCredential
   \<and> fst (apiKeyAuth (Some ''old-key'') key_store) = Inl DisabledCredential
   \<and> fst (apiKeyAuth (Some ''live-key'') (key_store\<lparr>script := [Fail storage_outage]\<rparr>))
       = Inl ResolverUnavailable
   \<and> fst (apiKeyAuth (Some ''live-key'') key_store) = Inr \<lparr>userId = 7, apiKeyId = 1\<rparr>"
proof -
  note c = authenticate_classifies
  have 1: "fst (apiKeyAuth None key_store) = Inl MissingCredential"
    using c [of None key_store] by simp
  have 2: "fst (apiKeyAuth (Some []) key_store) = Inl MissingCredential"
    using c [of "Some []" key_store] by simp
  have 3: "fst (apiKeyAuth (Some ''not-a-real-token'') key_store) = Inl InvalidCredential"
    using c [of None key_store "''not-a-real-token''"] by (simp add: key_store_def)
  have 4: "fst (apiKeyAuth (Some ''old-key'') key_store) = Inl DisabledCredential"
    using c [of None key_store "''old-key''" "api_keys key_store ! 1"]
    by (simp add: key_store_def)
  have 5: "fst (apiKeyAuth (Some ''live-key'') (key_store\<lparr>script := [Fail storage_outage]\<rparr>))
       = Inl ResolverUnavailable"
    using c [of None "key_store\<lparr>script := [Fail storage_outage]\<rparr>" "''live-key''" _ storage_outage "[]"]
    by (simp add: storage_outage_def)
  have 6: "fst (apiKeyAuth (Some ''live-key'') key_store) = Inr \<lparr>userId = 7, apiKeyId = 1\<rparr>"
    using c [of None key_store "''live-key''" "api_keys key_store ! 0"]
    by (simp add: key_store_def)
  from 1 2 3 4 5 6 show ?thesis by simp
qed

section \<open>An expiry date is not enforced\<close>

text \<open>
  The credential \<open>stale-key\<close> is active and its \<open>expires_at\<close> lies before the clock of the
  store; the resolver lets it through. The middleware selects \<open>id, user_id, is_active\<close>
  and never reads \<open>expires_at\<close>.
\<close>

theorem expired_key_counterexample:
  "ak_expires_at (api_keys key_store ! 2) = Some 50 \<and> 50 < clock key_store
   \<and> ak_api_key (api_keys key_store ! 2) = ''stale-key''
   \<and> fst (apiKeyAuth (Some ''stale-key'') key_store) = Inr \<lparr>userId = 9, apiKeyId = 3\<rparr>
   \<and> fst (apiKeyAuth (Some ''stale-key'') key_store) \<noteq> Inl DisabledCredential"
  by (simp add: key_store_def apiKeyAuth_def select_api_key_quiet single_def)

lemma apiKeyAuth_ignores_expiry:
  assumes "script st = []"
  shows "fst (apiKeyAuth header (st\<lparr>api_keys := map (\<lambda>r. r\<lparr>ak_expires_at := x r\<rparr>) (api_keys st), clock := t\<rparr>))
         = fst (apiKeyAuth header st)"
proof -
  let ?g = "\<lambda>r. r\<lparr>ak_expires_at := x r\<rparr>"
  have f: "filter (\<lambda>r. ak_api_key r = k) (map ?g (api_keys st))
        = map ?g (filter (\<lambda>r. ak_api_key r = k) (api_keys st))" for k
    by (simp add: filter_map comp_def)
  show ?thesis
    using assms
    by (cases header)
       (auto simp: apiKeyAuth_def select_api_key_quiet f single_map split: sum.splits)
qed

text \<open>
  Claim C5, as the code has it. For a credential that is found, the resolver answers
  DisabledCredential exactly when \<open>is_active\<close> is not true and succeeds otherwise, and the
  answer is the same whatever the \<open>expires_at\<close> of the rows and the clock are: an active
  credential authenticates also when its expiry lies in the past.
\<close>

theorem authenticate_reads_only_is_active:
  assumes "k \<noteq> []" "script st = []" "filter (\<lambda>r. ak_api_key r = k) (api_keys st) = [row]"
  shows "fst (apiKeyAuth (Some k) st)
           = (if ak_is_active row = Some True
              then Inr \<lparr>userId = ak_user_id row, apiKeyId = ak_id row\<rparr>
              else Inl DisabledCredential)
         \<and> fst (apiKeyAuth (Some k)
                  (st\<lparr>api_keys := map (\<lambda>r. r\<lparr>ak_expires_at := x r\<rparr>) (api_keys st), clock := t\<rparr>))
           = fst (apiKeyAuth (Some k) st)"
  using assms by (simp add: apiKeyAuth_ignores_expiry) (simp add: apiKeyAuth_def select_api_key_quiet single_def)

theorem authenticate_reads_only_is_active_witness:
  "fst (apiKeyAuth (Some ''stale-key'') key_store) = Inr \<lparr>userId = 9, apiKeyId = 3\<rparr>
   \<and> fst (apiKeyAuth (Some ''stale-key'')
           (key_store\<lparr>api_keys := map (\<lambda>r. r\<lparr>ak_expires_at := Some 0\<rparr>) (api_keys key_store),
                      clock := 5000\<rparr>))
      = Inr \<lparr>userId = 9, apiKeyId = 3\<rparr>"
  using authenticate_reads_only_is_active
          [where k = "''stale-key''" and st = key_store and row = "api_keys key_store ! 2"
             and x = "\<lambda>r. Some 0" and t = 5000]
  by (simp add: key_store_def)

section \<open>Updating a site the caller does not own\<close>

text \<open>
  Claim C9. \<open>updateConfig\<close> never creates a site. When no row of \<open>sites\<close> matches the
  site identifier together with the caller (the caller never resolved the identifier,
  or the row belongs to another caller) the answer is SiteNotFound, the store has seen
  one read of \<open>sites\<close> and its tables are as before. The answer does not tell the two
  cases apart.
\<close>

theorem updateConfig_never_creates:
  assumes "script st = []" "s \<noteq> []"
    and "\<forall>r \<in> set (sites st). \<not> (s_site_id r = s \<and> s_user_id r = u)"
  shows "updateConfig (JStr s) (Some u) (JObj kvs) st
           = (Inl SiteNotFound, st\<lparr>calls := calls st @ [(Sites, Select)]\<rparr>)
         \<and> (\<forall>sid uid upd. sites (snd (updateConfig sid uid upd st)) = sites st)"
proof -
  have "filter (\<lambda>r. s_site_id r = s \<and> s_user_id r = u) (sites st) = []"
    using assms(3) by (simp add: filter_empty_conv)
  then have "updateConfig (JStr s) (Some u) (JObj kvs) st
           = (Inl SiteNotFound, st\<lparr>calls := calls st @ [(Sites, Select)]\<rparr>)"
    using assms(1,2) by (simp add: updateConfig_def select_site_quiet single_def pgrst116_def)
  then show ?thesis
    using updateConfig_keeps_sites [OF assms(1)] by simp
qed

text \<open>Both cases: the identifier is unknown, and the identifier belongs to caller 7.\<close>

theorem updateConfig_never_creates_witness:
  "updateConfig (JStr ''shop'') (Some 7) (JObj [(''cursor_speed'', JNum 1)]) empty_store
     = (Inl SiteNotFound, empty_store\<lparr>calls := [(Sites, Select)]\<rparr>)
   \<and> updateConfig (JStr ''shop'') (Some 8) (JObj [(''cursor_speed'', JNum 1)]) shop_store
     = (Inl SiteNotFound, shop_store\<lparr>calls := [(Sites, Select)]\<rparr>)
   \<and> sites (snd (updateConfig (JStr ''shop'') (Some 7) (JObj [(''cursor_speed'', JNum 1)]) shop_store))
     = [shop_site]"
proof -
  have 1: "updateConfig (JStr ''shop'') (Some 7) (JObj [(''cursor_speed'', JNum 1)]) empty_store
     = (Inl SiteNotFound, empty_store\<lparr>calls := [(Sites, Select)]\<rparr>)"
    using updateConfig_never_creates [of empty_store "''shop''" 7 "[(''cursor_speed'', JNum 1)]"]
    by (simp add: empty_store_def)
  have 2: "updateConfig (JStr ''shop'') (Some 8) (JObj [(''cursor_speed'', JNum 1)]) shop_store
     = (Inl SiteNotFound, shop_store\<lparr>calls := [(Sites, Select)]\<rparr>)"
    using updateConfig_never_creates [of shop_store "''shop''" 8 "[(''cursor_speed'', JNum 1)]"]
    by (simp add: shop_store_def shop_site_def)
  have 3: "sites (snd (updateConfig (JStr ''shop'') (Some 7) (JObj [(''cursor_speed'', JNum 1)]) shop_store))
     = [shop_site]"
    using updateConfig_never_creates [of shop_store "''shop''" 8 "[(''cursor_speed'', JNum 1)]"]
    by (simp add: shop_store_def shop_site_def)
  from 1 2 3 show ?thesis by simp
qed

section \<open>An empty update\<close>

text \<open>
  For a site the caller never resolved, an empty mapping is answered with SiteNotFound,
  after a read of \<open>sites\<close>: the ownership check comes first in \<open>updateConfig\<close>.
\<close>

theorem empty_update_counterexample:
  "updateConfig (JStr ''shop'') (Some 7) (JObj []) empty_store
     = (Inl SiteNotFound, empty_store\<lparr>calls := [(Sites, Select)]\<rparr>)"
  by (simp add: updateConfig_def select_site_quiet single_def pgrst116_def empty_store_def)

text \<open>
  Claim C7, as the code has it. \<open>updateConfig\<close> with an empty mapping never succeeds and
  never writes, but it does read the store: it makes the one ownership lookup in
  \<open>sites\<close> and then fails, with SiteNotFound when the caller does not own the site and
  with "No valid fields to update" when the caller does.
\<close>

theorem empty_update_reads_then_fails:
  assumes "script st = []" "s \<noteq> []"
  shows "updateConfig (JStr s) (Some u) (JObj []) st
           = (Inl (if length (filter (\<lambda>r. s_site_id r = s \<and> s_user_id r = u) (sites st)) = 1
                   then NoValidFields else SiteNotFound),
              st\<lparr>calls := calls st @ [(Sites, Select)]\<rparr>)"
proof (cases "filter (\<lambda>r. s_site_id r = s \<and> s_user_id r = u) (sites st)")
  case Nil
  with assms show ?thesis
    by (simp add: updateConfig_def select_site_quiet single_def pgrst116_def)
next
  case (Cons r rs)
  with assms show ?thesis
    by (cases rs) (simp_all add: updateConfig_def select_site_quiet single_def pgrst116_def)
qed

theorem empty_update_reads_then_fails_witness:
  "updateConfig (JStr ''shop'') (Some 7) (JObj []) shop_store
     = (Inl NoValidFields, shop_store\<lparr>calls := [(Sites, Select)]\<rparr>)
   \<and> updateConfig (JStr ''other'') (Some 7) (JObj []) shop_store
     = (Inl SiteNotFound, shop_store\<lparr>calls := [(Sites, Select)]\<rparr>)"
proof -
  have 1: "updateConfig (JStr ''shop'') (Some 7) (JObj []) shop_store
     = (Inl NoValidFields, shop_store\<lparr>calls := [(Sites, Select)]\<rparr>)"
    using empty_update_reads_then_fails [of shop_store "''shop''" 7]
    by (simp add: shop_store_def shop_site_def)
  have 2: "updateConfig (JStr ''other'') (Some 7) (JObj []) shop_store
     = (Inl SiteNotFound, shop_store\<lparr>calls := [(Sites, Select)]\<rparr>)"
    using empty_update_reads_then_fails [of shop_store "''other''" 7]
    by (simp add: shop_store_def shop_site_def)
  from 1 2 show ?thesis by simp
qed

section \<open>An update without a whitelisted field\<close>

text \<open>
  The owner of \<open>shop\<close> sends two keys outside the whitelist: the answer is the failure
  "No valid fields to update", not a success.
\<close>

theorem unknown_keys_counterexample:
  "updateConfig (JStr ''shop'') (Some 7)
     (JObj [(''unsupported_field'', JStr ''value''), (''malicious_sql'', JStr ''DROP TABLE users'')])
     shop_store
   = (Inl NoValidFields, shop_store\<lparr>calls := [(Sites, Select)]\<rparr>)"
  by (simp add: updateConfig_def select_site_quiet single_def shop_store_def shop_site_def
        sanitizedUpdates_def prop_of_def allowedFields_def)

text \<open>
  Claim C8, as the code has it. For a caller who owns the site, \<open>updateConfig\<close> with a
  non-empty mapping none of whose keys is on the whitelist fails with "No valid fields
  to update"; the store has seen the ownership lookup only and nothing is written.
\<close>

theorem unknown_keys_rejected:
  assumes "script st = []" "s \<noteq> []"
    and "filter (\<lambda>r. s_site_id r = s \<and> s_user_id r = u) (sites st) = [site]"
    and "kvs \<noteq> []" "\<forall>k \<in> fst ` set kvs. k \<notin> set allowedFields"
  shows "updateConfig (JStr s) (Some u) (JObj kvs) st
           = (Inl NoValidFields, st\<lparr>calls := calls st @ [(Sites, Select)]\<rparr>)"
proof -
  have "prop_of kvs k = JUndefined" if "k \<in> set allowedFields" for k
    using assms(5) that by (intro prop_of_absent) blast
  then have "sanitizedUpdates kvs = []"
    by (simp add: sanitizedUpdates_def filter_empty_conv)
  with assms(1-3) show ?thesis
    by (simp add: updateConfig_def select_site_quiet single_def)
qed

theorem unknown_keys_rejected_witness:
  "updateConfig (JStr ''shop'') (Some 7) (JObj [(''theme'', JStr ''dark'')]) shop_store
     = (Inl NoValidFields, shop_store\<lparr>calls := [(Sites, Select)]\<rparr>)"
  using unknown_keys_rejected [of shop_store "''shop''" 7 shop_site "[(''theme'', JStr ''dark'')]"]
  by (simp add: shop_store_def shop_site_def allowedFields_def)

section \<open>A failed site creation\<close>

text \<open>
  The race of two first resolutions of one site by one caller: the lookup finds no row,
  the concurrent handler's insert is served, and this handler's insert is refused by
  the uniqueness constraint. The row is now present, yet the operation fails, and the
  store has seen no second lookup.
\<close>

theorem creation_race_counterexample:
  "fst (getConfigBySiteId (JStr ''shop'') (Some 7) racing_store) = Inl (CreateSiteFailed unique_violation)
   \<and> sites (snd (getConfigBySiteId (JStr ''shop'') (Some 7) racing_store)) = [shop_site]
   \<and> calls (snd (getConfigBySiteId (JStr ''shop'') (Some 7) racing_store))
       = [(Sites, Select), (Sites, Insert)]"
  by (simp add: getConfigBySiteId_def resolveSite_def select_site_def insert_site_def
        begin_call_def rival_def add_site_def maybeSingle_def racing_store_def empty_store_def
        shop_site_def fresh_def Let_def)

text \<open>
  Claim C6, as the code has it. When the lookup of \<open>resolveConfig\<close> finds no site and
  the insert then fails with an error \<open>e\<close>, the operation does not look the site up
  again: it fails with "Failed to create site" carrying \<open>e\<close>, after exactly two calls on
  the store, the lookup and the insert.
\<close>

theorem failed_creation_is_surfaced:
  assumes "s \<noteq> []"
    and "select_site maybeSingle s u st = (Inr None, st1)"
    and "insert_site s u st1 = (Inl e, st2)"
  shows "getConfigBySiteId (JStr s) (Some u) st = (Inl (CreateSiteFailed e), st2)
         \<and> calls st2 = calls st @ [(Sites, Select), (Sites, Insert)]"
proof -
  have "calls st1 = calls st @ [(Sites, Select)]"
    using select_site_calls [of maybeSingle s u st] assms(2) by simp
  moreover have "calls st2 = calls st1 @ [(Sites, Insert)]"
    using insert_site_calls [of s u st1] assms(3) by simp
  ultimately show ?thesis
    using assms by (simp add: getConfigBySiteId_def resolveSite_def)
qed

theorem failed_creation_is_surfaced_witness:
  "getConfigBySiteId (JStr ''shop'') (Some 7) racing_store
     = (Inl (CreateSiteFailed unique_violation),
        empty_store\<lparr>sites := [shop_site], calls := [(Sites, Select), (Sites, Insert)]\<rparr>)"
  using failed_creation_is_surfaced
          [where s = "''shop''" and u = 7 and st = racing_store and e = unique_violation
             and ?st1.0 = "empty_store\<lparr>script := [RivalInsertSite ''shop'' 7], calls := [(Sites, Select)]\<rparr>"
             and ?st2.0 = "empty_store\<lparr>sites := [shop_site], calls := [(Sites, Select), (Sites, Insert)]\<rparr>"]
  by (simp add: select_site_def insert_site_def begin_call_def rival_def add_site_def
        maybeSingle_def racing_store_def empty_store_def shop_site_def fresh_def Let_def)

section \<open>The first resolution of a site\<close>

lemma resolve_existing:
  assumes "script st = []" "s \<noteq> []"
    and "filter (\<lambda>r. s_site_id r = s \<and> s_user_id r = u) (sites st) = [site]"
    and "filter (\<lambda>c. c_site_id c = s_id site) (site_configs st) = [row]"
  shows "getConfigBySiteId (JStr s) (Some u) st
           = (Inr \<lparr>data_site_id = s, data_config = normalizeConfig row\<rparr>,
              st\<lparr>calls := calls st @ [(Sites, Select), (SiteConfigs, Select)]\<rparr>)"
  using assms
  by (simp add: getConfigBySiteId_def resolveSite_def resolveSiteConfig_def select_site_quiet
        select_site_config_quiet maybeSingle_def)

lemma resolve_first_touch:
  assumes "script st = []" "s \<noteq> []"
    and "\<forall>r \<in> set (sites st). s_site_id r \<noteq> s"
    and "\<forall>c \<in> set (site_configs st). c_site_id c \<in> s_id ` set (sites st)"
  shows "getConfigBySiteId (JStr s) (Some u) st
           = (Inr \<lparr>data_site_id = s, data_config = default_settings\<rparr>,
              st\<lparr>calls := calls st @ [(Sites, Select), (Sites, Insert), (SiteConfigs, Select),
                                       (SiteConfigs, Insert)],
                 sites := sites st @ [\<lparr>s_id = fresh (map s_id (sites st)), s_site_id = s, s_user_id = u\<rparr>],
                 site_configs := site_configs st
                    @ [blank_config_row (fresh (map c_id (site_configs st)))
                         (fresh (map s_id (sites st))) (clock st)]\<rparr>)"
proof -
  let ?i = "fresh (map s_id (sites st))"
  have nosite: "filter (\<lambda>r. s_site_id r = s \<and> s_user_id r = u) (sites st) = []"
    using assms(3) by (simp add: filter_empty_conv)
  have "\<forall>r \<in> set (sites st). s_id r < ?i"
    by (simp add: fresh_gt)
  with assms(4) have nocfg: "\<forall>c \<in> set (site_configs st). c_site_id c \<noteq> ?i"
    by fastforce
  then have nocfg': "filter (\<lambda>c. c_site_id c = ?i) (site_configs st) = []"
    by (simp add: filter_empty_conv)
  show ?thesis
    using assms(1-3) nosite nocfg nocfg'
    by (simp add: getConfigBySiteId_def resolveSite_def resolveSiteConfig_def select_site_quiet
          select_site_config_quiet maybeSingle_def insert_site_quiet add_site_def
          insert_site_config_quiet apply_defaultConfig normalize_blank Let_def)
qed

text \<open>
  Caller 8 has never resolved \<open>shop\<close>, but caller 7 owns a site of that name: the
  resolution by caller 8 fails, since \<open>sites.site_id\<close> is unique over all callers.
\<close>

theorem first_touch_counterexample:
  "filter (\<lambda>r. s_site_id r = ''shop'' \<and> s_user_id r = 8) (sites shop_store) = []
   \<and> fst (getConfigBySiteId (JStr ''shop'') (Some 8) shop_store) = Inl (CreateSiteFailed unique_violation)"
  by (simp add: getConfigBySiteId_def resolveSite_def select_site_quiet insert_site_quiet
        add_site_def maybeSingle_def shop_store_def shop_site_def)

text \<open>
  Claim C3, as the code has it. For a site identifier that no caller has registered yet
  (in a store where every configuration belongs to a site), \<open>resolveConfig\<close> succeeds with
  the all-defaults configuration; a second call with the same pair returns the same
  result and leaves the tables as the first call left them. Whenever the site and its
  configuration exist, the result is the stored row with the default in place of every
  null, in all seven fields, and the tables are not changed by the call.
\<close>

theorem first_touch_defaults:
  assumes "script st = []" "s \<noteq> []"
    and "\<forall>r \<in> set (sites st). s_site_id r \<noteq> s"
    and "\<forall>c \<in> set (site_configs st). c_site_id c \<in> s_id ` set (sites st)"
  shows "fst (getConfigBySiteId (JStr s) (Some u) st)
           = Inr \<lparr>data_site_id = s, data_config = default_settings\<rparr>
         \<and> fst (getConfigBySiteId (JStr s) (Some u) (snd (getConfigBySiteId (JStr s) (Some u) st)))
           = Inr \<lparr>data_site_id = s, data_config = default_settings\<rparr>
         \<and> tables (snd (getConfigBySiteId (JStr s) (Some u) (snd (getConfigBySiteId (JStr s) (Some u) st))))
           = tables (snd (getConfigBySiteId (JStr s) (Some u) st))
         \<and> (\<forall>st' site row.
               script st' = []
               \<and> filter (\<lambda>r. s_site_id r = s \<and> s_user_id r = u) (sites st') = [site]
               \<and> filter (\<lambda>c. c_site_id c = s_id site) (site_configs st') = [row]
               \<longrightarrow> fst (getConfigBySiteId (JStr s) (Some u) st')
                     = Inr \<lparr>data_site_id = s, data_config = normalizeConfig row\<rparr>
                   \<and> tables (snd (getConfigBySiteId (JStr s) (Some u) st')) = tables st'
                   \<and> (\<forall>k \<in> set allowedFields.
                         field k (normalizeConfig row)
                           = (if column k row = JNull then field k default_settings else column k row)))"
proof -
  let ?i = "fresh (map s_id (sites st))"
  let ?site = "\<lparr>s_id = ?i, s_site_id = s, s_user_id = u\<rparr>"
  let ?row = "blank_config_row (fresh (map c_id (site_configs st))) ?i (clock st)"
  let ?st1 = "snd (getConfigBySiteId (JStr s) (Some u) st)"
  note first = resolve_first_touch [OF assms, of u]
  have st1: "script ?st1 = []" "sites ?st1 = sites st @ [?site]"
    "site_configs ?st1 = site_configs st @ [?row]"
    using assms(1) by (simp_all add: first)
  have "\<forall>r \<in> set (sites st). s_id r < ?i"
    by (simp add: fresh_gt)
  with assms(4) have "\<forall>c \<in> set (site_configs st). c_site_id c \<noteq> ?i"
    by fastforce
  then have cfg: "filter (\<lambda>c. c_site_id c = s_id ?site) (site_configs ?st1) = [?row]"
    by (simp add: st1 filter_empty_conv blank_config_row_def)
  have site: "filter (\<lambda>r. s_site_id r = s \<and> s_user_id r = u) (sites ?st1) = [?site]"
    using assms(3) by (simp add: st1 filter_empty_conv)
  note second = resolve_existing [OF st1(1) assms(2) site cfg]
  have a: "fst (getConfigBySiteId (JStr s) (Some u) st)
           = Inr \<lparr>data_site_id = s, data_config = default_settings\<rparr>"
    by (simp add: first)
  have b: "fst (getConfigBySiteId (JStr s) (Some u) ?st1)
           = Inr \<lparr>data_site_id = s, data_config = default_settings\<rparr>"
    by (simp add: second normalize_blank)
  have c: "tables (snd (getConfigBySiteId (JStr s) (Some u) ?st1)) = tables ?st1"
    by (simp add: second tables_def)
  have d: "fst (getConfigBySiteId (JStr s) (Some u) st')
             = Inr \<lparr>data_site_id = s, data_config = normalizeConfig row\<rparr>
           \<and> tables (snd (getConfigBySiteId (JStr s) (Some u) st')) = tables st'
           \<and> (\<forall>k \<in> set allowedFields.
                 field k (normalizeConfig row)
                   = (if column k row = JNull then field k default_settings else column k row))"
    if "script st' = []"
      and "filter (\<lambda>r. s_site_id r = s \<and> s_user_id r = u) (sites st') = [site]"
      and "filter (\<lambda>c. c_site_id c = s_id site) (site_configs st') = [row]"
    for st' site row
    using resolve_existing [OF that(1) assms(2) that(2) that(3)]
    by (simp add: tables_def normalize_field)
  from a b c d show ?thesis by blast
qed

theorem first_touch_defaults_witness:
  "fst (getConfigBySiteId (JStr ''shop'') (Some 7) empty_store)
     = Inr \<lparr>data_site_id = ''shop'', data_config = default_settings\<rparr>
   \<and> fst (getConfigBySiteId (JStr ''shop'') (Some 7)
            (snd (getConfigBySiteId (JStr ''shop'') (Some 7) empty_store)))
     = Inr \<lparr>data_site_id = ''shop'', data_config = default_settings\<rparr>
   \<and> tables (snd (getConfigBySiteId (JStr ''shop'') (Some 7)
                    (snd (getConfigBySiteId (JStr ''shop'') (Some 7) empty_store))))
     = tables (snd (getConfigBySiteId (JStr ''shop'') (Some 7) empty_store))
   \<and> fst (getConfigBySiteId (JStr ''shop'') (Some 7) shop_store)
     = Inr \<lparr>data_site_id = ''shop'',
            data_config = \<lparr>cursor_mode_enabled = True, cursor_speed = 12, scroll_speed = 15,
              accessibility_profile = ''standard'', enter_hold_ms = 1000, exit_hold_ms = 800,
              click_cooldown_ms = 300\<rparr>\<rparr>
   \<and> tables (snd (getConfigBySiteId (JStr ''shop'') (Some 7) shop_store)) = tables shop_store
   \<and> column ''enter_hold_ms'' shop_config = JNull
   \<and> field ''enter_hold_ms'' (normalizeConfig shop_config) = JNum 1000"
proof -
  have t: "script empty_store = []" "''shop'' \<noteq> []"
    "\<forall>r \<in> set (sites empty_store). s_site_id r \<noteq> ''shop''"
    "\<forall>c \<in> set (site_configs empty_store). c_site_id c \<in> s_id ` set (sites empty_store)"
    by (simp_all add: empty_store_def)
  note w = first_touch_defaults [OF t, of 7]
  then have inner:
    "script shop_store = []
       \<and> filter (\<lambda>r. s_site_id r = ''shop'' \<and> s_user_id r = 7) (sites shop_store) = [shop_site]
       \<and> filter (\<lambda>c. c_site_id c = s_id shop_site) (site_configs shop_store) = [shop_config]
     \<longrightarrow> fst (getConfigBySiteId (JStr ''shop'') (Some 7) shop_store)
           = Inr \<lparr>data_site_id = ''shop'', data_config = normalizeConfig shop_config\<rparr>
         \<and> tables (snd (getConfigBySiteId (JStr ''shop'') (Some 7) shop_store)) = tables shop_store
         \<and> (\<forall>k \<in> set allowedFields.
               field k (normalizeConfig shop_config)
                 = (if column k shop_config = JNull then field k default_settings
                    else column k shop_config))"
    by blast
  have pre: "script shop_store = []
       \<and> filter (\<lambda>r. s_site_id r = ''shop'' \<and> s_user_id r = 7) (sites shop_store) = [shop_site]
       \<and> filter (\<lambda>c. c_site_id c = s_id shop_site) (site_configs shop_store) = [shop_config]"
    by (simp add: shop_store_def shop_site_def shop_config_def)
  have null: "column ''enter_hold_ms'' shop_config = JNull"
    by (simp add: column_def column_named_def of_integer_def shop_config_def)
  from inner pre have e:
    "fst (getConfigBySiteId (JStr ''shop'') (Some 7) shop_store)
           = Inr \<lparr>data_site_id = ''shop'', data_config = normalizeConfig shop_config\<rparr>"
    "tables (snd (getConfigBySiteId (JStr ''shop'') (Some 7) shop_store)) = tables shop_store"
    "\<forall>k \<in> set allowedFields.
               field k (normalizeConfig shop_config)
                 = (if column k shop_config = JNull then field k default_settings
                    else column k shop_config)"
    by blast+
  from e(3) null have "field ''enter_hold_ms'' (normalizeConfig shop_config) = JNum 1000"
    by (simp add: allowedFields_def field_def column_named_def default_settings_def)
  moreover have "normalizeConfig shop_config
      = \<lparr>cursor_mode_enabled = True, cursor_speed = 12, scroll_speed = 15,
              accessibility_profile = ''standard'', enter_hold_ms = 1000, exit_hold_ms = 800,
              click_cooldown_ms = 300\<rparr>"
    by (simp add: normalizeConfig_def shop_config_def)
  ultimately show ?thesis
    using w e(1,2) null by simp
qed

section \<open>One site identifier and two callers\<close>

text \<open>
  Callers 7 and 8 resolve the identifier \<open>shop\<close> one after the other on the empty
  store: the first succeeds, the second fails, and \<open>sites\<close> holds the one row of caller 7.
\<close>

theorem shared_identifier_counterexample:
  "fst (getConfigBySiteId (JStr ''shop'') (Some 7) empty_store)
     = Inr \<lparr>data_site_id = ''shop'', data_config = default_settings\<rparr>
   \<and> fst (getConfigBySiteId (JStr ''shop'') (Some 8)
            (snd (getConfigBySiteId (JStr ''shop'') (Some 7) empty_store)))
     = Inl (CreateSiteFailed unique_violation)
   \<and> sites (snd (getConfigBySiteId (JStr ''shop'') (Some 8)
                   (snd (getConfigBySiteId (JStr ''shop'') (Some 7) empty_store))))
     = [shop_site]"
  by (simp add: getConfigBySiteId_def resolveSite_def resolveSiteConfig_def select_site_quiet
        insert_site_quiet add_site_def select_site_config_quiet insert_site_config_quiet
        maybeSingle_def apply_defaultConfig normalize_blank empty_store_def shop_site_def
        fresh_def Let_def)

lemma resolve_taken:
  assumes "script st = []" "s \<noteq> []" "x \<noteq> y"
    and "r \<in> set (sites st)" "s_site_id r = s" "s_user_id r = x"
    and "distinct (map s_site_id (sites st))"
  shows "getConfigBySiteId (JStr s) (Some y) st
           = (Inl (CreateSiteFailed unique_violation),
              st\<lparr>calls := calls st @ [(Sites, Select), (Sites, Insert)]\<rparr>)"
    and "filter (\<lambda>r. s_site_id r = s \<and> s_user_id r = y) (sites st) = []"
proof -
  have "r' = r" if "r' \<in> set (sites st)" "s_site_id r' = s" for r'
    using that assms(4,5,7) by (metis distinct_map inj_onD)
  with assms(3,6) show none: "filter (\<lambda>r. s_site_id r = s \<and> s_user_id r = y) (sites st) = []"
    by (auto simp: filter_empty_conv)
  have "\<exists>r \<in> set (sites st). s_site_id r = s"
    using assms(4,5) by blast
  with none assms(1,2) show "getConfigBySiteId (JStr s) (Some y) st
           = (Inl (CreateSiteFailed unique_violation),
              st\<lparr>calls := calls st @ [(Sites, Select), (Sites, Insert)]\<rparr>)"
    by (simp add: getConfigBySiteId_def resolveSite_def select_site_quiet insert_site_quiet
          add_site_def maybeSingle_def)
qed

text \<open>
  Claim C2, as the code has it. A site identifier has one owner. When caller \<open>x\<close> owns
  \<open>s\<close>, a resolution of \<open>s\<close> by another caller \<open>y\<close> fails at the creation of the site and
  changes no table; an update of \<open>s\<close> by \<open>y\<close> is answered with SiteNotFound and changes
  no table; and whatever \<open>x\<close> updates on \<open>s\<close>, the resolution by \<open>y\<close> fails as before.
  So \<open>y\<close> neither sees nor changes the configuration of \<open>x\<close>.
\<close>

theorem one_owner_per_identifier:
  assumes "script st = []" "s \<noteq> []" "x \<noteq> y"
    and "r \<in> set (sites st)" "s_site_id r = s" "s_user_id r = x"
    and "distinct (map s_site_id (sites st))"
  shows "fst (getConfigBySiteId (JStr s) (Some y) st) = Inl (CreateSiteFailed unique_violation)
         \<and> tables (snd (getConfigBySiteId (JStr s) (Some y) st)) = tables st
         \<and> fst (updateConfig (JStr s) (Some y) (JObj kvs) st) = Inl SiteNotFound
         \<and> tables (snd (updateConfig (JStr s) (Some y) (JObj kvs) st)) = tables st
         \<and> fst (getConfigBySiteId (JStr s) (Some y) (snd (updateConfig (JStr s) (Some x) upd st)))
             = Inl (CreateSiteFailed unique_violation)"
proof -
  note taken = resolve_taken [OF assms]
  let ?st' = "snd (updateConfig (JStr s) (Some x) upd st)"
  have keep: "script ?st' = []" "sites ?st' = sites st"
    using updateConfig_keeps_sites [OF assms(1)] by simp_all
  have after: "fst (getConfigBySiteId (JStr s) (Some y) ?st') = Inl (CreateSiteFailed unique_violation)"
    using resolve_taken(1) [of ?st' s x y r] assms keep by simp
  have upd: "updateConfig (JStr s) (Some y) (JObj kvs) st
               = (Inl SiteNotFound, st\<lparr>calls := calls st @ [(Sites, Select)]\<rparr>)"
    using assms(1,2) taken(2) by (simp add: updateConfig_def select_site_quiet single_def pgrst116_def)
  show ?thesis
    by (simp add: taken(1) upd after tables_def)
qed

theorem one_owner_per_identifier_witness:
  "fst (getConfigBySiteId (JStr ''shop'') (Some 8) shop_store) = Inl (CreateSiteFailed unique_violation)
   \<and> tables (snd (getConfigBySiteId (JStr ''shop'') (Some 8) shop_store)) = tables shop_store
   \<and> fst (updateConfig (JStr ''shop'') (Some 8) (JObj [(''cursor_speed'', JNum 99)]) shop_store)
       = Inl SiteNotFound
   \<and> tables (snd (updateConfig (JStr ''shop'') (Some 8) (JObj [(''cursor_speed'', JNum 99)]) shop_store))
       = tables shop_store
   \<and> fst (getConfigBySiteId (JStr ''shop'') (Some 8)
            (snd (updateConfig (JStr ''shop'') (Some 7) (JObj [(''cursor_speed'', JNum 15)]) shop_store)))
       = Inl (CreateSiteFailed unique_violation)"
  using one_owner_per_identifier
          [where st = shop_store and s = "''shop''" and x = 7 and y = 8 and r = shop_site
             and kvs = "[(''cursor_speed'', JNum 99)]" and upd = "JObj [(''cursor_speed'', JNum 15)]"]
  by (simp add: shop_store_def shop_site_def)

section \<open>A whitelisted update and its round trip\<close>

lemma has_type_not_null: "has_type k v \<Longrightarrow> v \<noteq> JNull \<and> v \<noteq> JUndefined"
  by (auto simp: has_type_def split: option.splits col.splits)

lemma filter_replaced:
  assumes "filter P cs = [row]" "P row'"
  shows "filter P (map (\<lambda>c. if P c then row' else c) cs) = [row']"
proof -
  have "P \<circ> (\<lambda>c. if P c then row' else c) = P"
    using assms(2) by (auto simp: fun_eq_iff)
  then have "filter P (map (\<lambda>c. if P c then row' else c) cs)
               = map (\<lambda>c. if P c then row' else c) (filter P cs)"
    by (simp add: filter_map)
  moreover have "row \<in> set (filter P cs)"
    by (simp add: assms(1))
  then have "P row"
    by simp
  ultimately show ?thesis using assms(1) by simp
qed

lemma prop_of_filter:
  "prop_of (filter (\<lambda>kv. P (fst kv)) kvs) k = (if P k then prop_of kvs k else JUndefined)"
  by (induction kvs) (auto simp: prop_of_def)

lemma sanitizedUpdates_cong:
  "(\<And>k. k \<in> set allowedFields \<Longrightarrow> prop_of kvs k = prop_of kvs' k) \<Longrightarrow>
   sanitizedUpdates kvs = sanitizedUpdates kvs'"
  unfolding sanitizedUpdates_def
  by (metis (mono_tags, lifting) filter_cong map_eq_conv mem_Collect_eq set_filter)

lemma updateConfig_cong:
  "sanitizedUpdates kvs = sanitizedUpdates kvs' \<Longrightarrow>
   updateConfig sid uid (JObj kvs) st = updateConfig sid uid (JObj kvs') st"
  by (simp add: updateConfig_def split: jsval.splits option.splits prod.splits sum.splits)

lemma update_applies:
  assumes "script st = []" "s \<noteq> []"
    and "filter (\<lambda>r. s_site_id r = s \<and> s_user_id r = u) (sites st) = [site]"
    and "filter (\<lambda>c. c_site_id c = s_id site) (site_configs st) = [row]"
    and "sanitizedUpdates kvs \<noteq> []"
    and "\<forall>k \<in> set allowedFields.
           prop_of kvs k = JUndefined \<or> prop_of kvs k = JNull \<or> has_type k (prop_of kvs k)"
  shows "\<exists>row'.
           updateConfig (JStr s) (Some u) (JObj kvs) st
             = (Inr \<lparr>data_site_id = s, data_config = normalizeConfig row'\<rparr>,
                st\<lparr>calls := calls st @ [(Sites, Select), (SiteConfigs, Update)],
                   site_configs := map (\<lambda>c. if c_site_id c = s_id site then row' else c)
                                       (site_configs st)\<rparr>)
           \<and> (\<forall>k. column k row'
                     = (if k \<in> set allowedFields \<and> prop_of kvs k \<noteq> JUndefined then prop_of kvs k
                        else if k = ''updated_at'' then JNum (int (clock st))
                        else column k row))
           \<and> fst (getConfigBySiteId (JStr s) (Some u)
                    (snd (updateConfig (JStr s) (Some u) (JObj kvs) st)))
               = Inr \<lparr>data_site_id = s, data_config = normalizeConfig row'\<rparr>"
proof -
  let ?p = "sanitizedUpdates kvs @ [(''updated_at'', JNum (int (clock st)))]"
  let ?P = "\<lambda>c. c_site_id c = s_id site"
  have "\<forall>(k, v) \<in> set ?p. \<forall>r. \<exists>r'. set_column k v r = Inr r'"
  proof (clarify, goal_cases)
    case (1 k v r)
    then consider "(k, v) \<in> set (sanitizedUpdates kvs)" | "k = ''updated_at''" "v = JNum (int (clock st))"
      by auto
    then show ?case
    proof cases
      case 1
      then have "k \<in> set allowedFields" "v = prop_of kvs k" "v \<noteq> JUndefined"
        by (auto simp: sanitizedUpdates_def)
      with assms(6) show ?thesis
        by (intro set_column_accepts) auto
    next
      case 2
      then show ?thesis by (simp add: set_updated_at)
    qed
  qed
  then obtain row' where row': "apply_patch ?p row = Inr row'"
    using apply_patch_ok by blast
  note cols = apply_patch_column [OF row' patch_distinct]
  have col: "column k row'
               = (if k \<in> set allowedFields \<and> prop_of kvs k \<noteq> JUndefined then prop_of kvs k
                  else if k = ''updated_at'' then JNum (int (clock st))
                  else column k row)" for k
    using cols [of k] unfolding map_of_patch by (simp split: if_splits)
  have "row \<in> set (filter ?P (site_configs st))"
    by (simp add: assms(4))
  then have own: "?P row'"
    using cols [of "[]"] by simp
  have upd: "updateConfig (JStr s) (Some u) (JObj kvs) st
             = (Inr \<lparr>data_site_id = s, data_config = normalizeConfig row'\<rparr>,
                st\<lparr>calls := calls st @ [(Sites, Select), (SiteConfigs, Update)],
                   site_configs := map (\<lambda>c. if ?P c then row' else c) (site_configs st)\<rparr>)"
    using assms(1-5) row'
    by (simp add: updateConfig_def select_site_quiet single_def update_site_config_quiet)
  let ?st' = "snd (updateConfig (JStr s) (Some u) (JObj kvs) st)"
  have st': "script ?st' = []" "sites ?st' = sites st"
    "site_configs ?st' = map (\<lambda>c. if ?P c then row' else c) (site_configs st)"
    using assms(1) by (simp_all add: upd)
  have "filter ?P (site_configs ?st') = [row']"
    unfolding st'(3) using assms(4) own by (rule filter_replaced)
  moreover have "filter (\<lambda>r. s_site_id r = s \<and> s_user_id r = u) (sites ?st') = [site]"
    by (simp add: st'(2) assms(3))
  ultimately have "fst (getConfigBySiteId (JStr s) (Some u) ?st')
                     = Inr \<lparr>data_site_id = s, data_config = normalizeConfig row'\<rparr>"
    using resolve_existing [OF st'(1) assms(2), of u site row'] by simp
  with upd col show ?thesis by blast
qed


text \<open>
  Two payloads of the owner of \<open>shop\<close>, each with a whitelisted field and an unsupported
  key. With \<open>cursor_speed\<close> set to 2147483648 the store refuses the value (22003), the
  update fails with "Failed to update config" and the stored row is as before. With
  \<open>cursor_speed\<close> set to \<open>null\<close> the update succeeds and returns the default 10, not the
  supplied value.
\<close>

theorem unrestricted_update_counterexample:
  "prop_of big_payload ''cursor_speed'' = JNum 2147483648
   \<and> fst (updateConfig (JStr ''shop'') (Some 7) (JObj big_payload) shop_store)
       = Inl (UpdateConfigFailed out_of_range)
   \<and> site_configs (snd (updateConfig (JStr ''shop'') (Some 7) (JObj big_payload) shop_store))
       = [shop_config]
   \<and> prop_of ((''unsupported_field'', JStr ''x'') # null_payload) ''cursor_speed'' = JNull
   \<and> fst (updateConfig (JStr ''shop'') (Some 7)
            (JObj ((''unsupported_field'', JStr ''x'') # null_payload)) shop_store)
       = Inr \<lparr>data_site_id = ''shop'',
              data_config = \<lparr>cursor_mode_enabled = True, cursor_speed = 10, scroll_speed = 15,
                accessibility_profile = ''standard'', enter_hold_ms = 1000, exit_hold_ms = 800,
                click_cooldown_ms = 300\<rparr>\<rparr>"
  by (simp add: updateConfig_def select_site_quiet single_def update_site_config_quiet
        sanitizedUpdates_def prop_of_def allowedFields_def big_payload_def null_payload_def
        set_column_def column_named_def as_integer_def as_timestamp_def in_int32_def
        normalizeConfig_def shop_store_def shop_site_def shop_config_def)

text \<open>
  Claim C4, as the code has it. The caller owns the site and its configuration exists;
  the payload supplies at least one whitelisted field, each supplied whitelisted value
  being a non-null value of its column's type (a boolean, a number of 32 bits, a
  string), and any number of other keys. Then \<open>updateConfig\<close> succeeds, and a following
  \<open>resolveConfig\<close> returns the same configuration: each supplied whitelisted field has
  the supplied value and every other field is as before. A key outside the whitelist is
  in neither the returned object nor the stored row, and the outcome is that of the
  payload without such keys.
\<close>

theorem whitelisted_update_roundtrip:
  assumes "script st = []" "s \<noteq> []"
    and "filter (\<lambda>r. s_site_id r = s \<and> s_user_id r = u) (sites st) = [site]"
    and "filter (\<lambda>c. c_site_id c = s_id site) (site_configs st) = [row]"
    and "\<exists>k \<in> set allowedFields. prop_of kvs k \<noteq> JUndefined"
    and "\<forall>k \<in> set allowedFields. prop_of kvs k = JUndefined \<or> has_type k (prop_of kvs k)"
  shows "(\<exists>d row'.
            fst (updateConfig (JStr s) (Some u) (JObj kvs) st) = Inr d
          \<and> data_site_id d = s
          \<and> fst (getConfigBySiteId (JStr s) (Some u)
                   (snd (updateConfig (JStr s) (Some u) (JObj kvs) st))) = Inr d
          \<and> (\<forall>k. field k (data_config d)
                    = (if k \<in> set allowedFields \<and> prop_of kvs k \<noteq> JUndefined then prop_of kvs k
                       else field k (normalizeConfig row)))
          \<and> (\<forall>k. k \<notin> set allowedFields \<longrightarrow> field k (data_config d) = JUndefined)
          \<and> site_configs (snd (updateConfig (JStr s) (Some u) (JObj kvs) st))
              = map (\<lambda>c. if c_site_id c = s_id site then row' else c) (site_configs st)
          \<and> (\<forall>k. column k row'
                    = (if k \<in> set allowedFields \<and> prop_of kvs k \<noteq> JUndefined then prop_of kvs k
                       else if k = ''updated_at'' then JNum (int (clock st))
                       else column k row)))
         \<and> updateConfig (JStr s) (Some u) (JObj kvs) st
             = updateConfig (JStr s) (Some u) (JObj (filter (\<lambda>kv. fst kv \<in> set allowedFields) kvs)) st"
proof -
  have nonempty: "sanitizedUpdates kvs \<noteq> []"
    using assms(5) by (auto simp: sanitizedUpdates_def filter_empty_conv)
  have ok: "\<forall>k \<in> set allowedFields.
              prop_of kvs k = JUndefined \<or> prop_of kvs k = JNull \<or> has_type k (prop_of kvs k)"
    using assms(6) by blast
  from update_applies [OF assms(1-4) nonempty ok] obtain row' where
    upd: "updateConfig (JStr s) (Some u) (JObj kvs) st
             = (Inr \<lparr>data_site_id = s, data_config = normalizeConfig row'\<rparr>,
                st\<lparr>calls := calls st @ [(Sites, Select), (SiteConfigs, Update)],
                   site_configs := map (\<lambda>c. if c_site_id c = s_id site then row' else c)
                                       (site_configs st)\<rparr>)"
    and col: "\<And>k. column k row'
                     = (if k \<in> set allowedFields \<and> prop_of kvs k \<noteq> JUndefined then prop_of kvs k
                        else if k = ''updated_at'' then JNum (int (clock st))
                        else column k row)"
    and res: "fst (getConfigBySiteId (JStr s) (Some u)
                    (snd (updateConfig (JStr s) (Some u) (JObj kvs) st)))
               = Inr \<lparr>data_site_id = s, data_config = normalizeConfig row'\<rparr>"
    by blast
  have fld: "field k (normalizeConfig row')
               = (if k \<in> set allowedFields \<and> prop_of kvs k \<noteq> JUndefined then prop_of kvs k
                  else field k (normalizeConfig row))" for k
  proof (cases "k \<in> set allowedFields")
    case False
    then show ?thesis by (simp add: field_outside)
  next
    case True
    show ?thesis
    proof (cases "prop_of kvs k = JUndefined")
      case True
      with \<open>k \<in> set allowedFields\<close> allowedFields_distinct(2) have "column k row' = column k row"
        by (auto simp: col)
      with True \<open>k \<in> set allowedFields\<close> show ?thesis
        by (simp add: normalize_field)
    next
      case False
      with True assms(6) have "has_type k (prop_of kvs k)" by blast
      then have "prop_of kvs k \<noteq> JNull" by (simp add: has_type_not_null)
      with True False show ?thesis
        by (simp add: normalize_field col)
    qed
  qed
  have drop: "sanitizedUpdates (filter (\<lambda>kv. fst kv \<in> set allowedFields) kvs) = sanitizedUpdates kvs"
    by (rule sanitizedUpdates_cong)
       (simp add: prop_of_filter [where P = "\<lambda>k. k \<in> set allowedFields"])
  have same: "updateConfig (JStr s) (Some u) (JObj kvs) st
             = updateConfig (JStr s) (Some u) (JObj (filter (\<lambda>kv. fst kv \<in> set allowedFields) kvs)) st"
    by (rule updateConfig_cong) (simp add: drop)
  let ?d = "\<lparr>data_site_id = s, data_config = normalizeConfig row'\<rparr>"
  have "fst (updateConfig (JStr s) (Some u) (JObj kvs) st) = Inr ?d" "data_site_id ?d = s"
    "\<forall>k. field k (data_config ?d)
           = (if k \<in> set allowedFields \<and> prop_of kvs k \<noteq> JUndefined then prop_of kvs k
              else field k (normalizeConfig row))"
    "\<forall>k. k \<notin> set allowedFields \<longrightarrow> field k (data_config ?d) = JUndefined"
    "site_configs (snd (updateConfig (JStr s) (Some u) (JObj kvs) st))
              = map (\<lambda>c. if c_site_id c = s_id site then row' else c) (site_configs st)"
    by (simp_all add: upd fld field_outside)
  with res col same show ?thesis by blast
qed

theorem whitelisted_update_roundtrip_witness:
  "fst (updateConfig (JStr ''shop'') (Some 7) (JObj test_payload) shop_store)
     = Inr \<lparr>data_site_id = ''shop'',
            data_config = \<lparr>cursor_mode_enabled = True, cursor_speed = 15, scroll_speed = 20,
              accessibility_profile = ''standard'', enter_hold_ms = 1000, exit_hold_ms = 800,
              click_cooldown_ms = 300\<rparr>\<rparr>
   \<and> fst (getConfigBySiteId (JStr ''shop'') (Some 7)
            (snd (updateConfig (JStr ''shop'') (Some 7) (JObj test_payload) shop_store)))
     = fst (updateConfig (JStr ''shop'') (Some 7) (JObj test_payload) shop_store)
   \<and> site_configs (snd (updateConfig (JStr ''shop'') (Some 7) (JObj test_payload) shop_store))
     = [shop_config\<lparr>c_cursor_speed := Some 15, c_scroll_speed := Some 20, c_updated_at := Some 100\<rparr>]
   \<and> updateConfig (JStr ''shop'') (Some 7) (JObj test_payload) shop_store
     = updateConfig (JStr ''shop'') (Some 7) (JObj [(''cursor_speed'', JNum 15), (''scroll_speed'', JNum 20)])
         shop_store"
proof -
  have pre: "script shop_store = []" "''shop'' \<noteq> []"
    "filter (\<lambda>r. s_site_id r = ''shop'' \<and> s_user_id r = 7) (sites shop_store) = [shop_site]"
    "filter (\<lambda>c. c_site_id c = s_id shop_site) (site_configs shop_store) = [shop_config]"
    "\<exists>k \<in> set allowedFields. prop_of test_payload k \<noteq> JUndefined"
    "\<forall>k \<in> set allowedFields. prop_of test_payload k = JUndefined \<or> has_type k (prop_of test_payload k)"
    by (simp_all add: shop_store_def shop_site_def shop_config_def allowedFields_def prop_of_def
          test_payload_def has_type_def column_named_def in_int32_def)
  note w = whitelisted_update_roundtrip [OF pre]
  have run: "updateConfig (JStr ''shop'') (Some 7) (JObj test_payload) shop_store
     = (Inr \<lparr>data_site_id = ''shop'',
            data_config = \<lparr>cursor_mode_enabled = True, cursor_speed = 15, scroll_speed = 20,
              accessibility_profile = ''standard'', enter_hold_ms = 1000, exit_hold_ms = 800,
              click_cooldown_ms = 300\<rparr>\<rparr>,
        shop_store\<lparr>calls := [(Sites, Select), (SiteConfigs, Update)],
          site_configs := [shop_config\<lparr>c_cursor_speed := Some 15, c_scroll_speed := Some 20,
                                       c_updated_at := Some 100\<rparr>]\<rparr>)"
    by (simp add: updateConfig_def select_site_quiet single_def update_site_config_quiet
          sanitizedUpdates_def prop_of_def allowedFields_def test_payload_def set_column_def
          column_named_def as_integer_def as_timestamp_def in_int32_def normalizeConfig_def
          shop_store_def
          shop_site_def shop_config_def)
  from w have a: "fst (getConfigBySiteId (JStr ''shop'') (Some 7)
            (snd (updateConfig (JStr ''shop'') (Some 7) (JObj test_payload) shop_store)))
     = fst (updateConfig (JStr ''shop'') (Some 7) (JObj test_payload) shop_store)"
    by auto
  from w have "updateConfig (JStr ''shop'') (Some 7) (JObj test_payload) shop_store
     = updateConfig (JStr ''shop'') (Some 7)
         (JObj (filter (\<lambda>kv. fst kv \<in> set allowedFields) test_payload)) shop_store"
    by blast
  moreover have "filter (\<lambda>kv. fst kv \<in> set allowedFields) test_payload
                   = [(''cursor_speed'', JNum 15), (''scroll_speed'', JNum 20)]"
    by (simp add: test_payload_def allowedFields_def)
  ultimately have b: "updateConfig (JStr ''shop'') (Some 7) (JObj test_payload) shop_store
     = updateConfig (JStr ''shop'') (Some 7) (JObj [(''cursor_speed'', JNum 15), (''scroll_speed'', JNum 20)])
         shop_store"
    by (simp only:)
  have c: "fst (updateConfig (JStr ''shop'') (Some 7) (JObj test_payload) shop_store)
     = Inr \<lparr>data_site_id = ''shop'',
            data_config = \<lparr>cursor_mode_enabled = True, cursor_speed = 15, scroll_speed = 20,
              accessibility_profile = ''standard'', enter_hold_ms = 1000, exit_hold_ms = 800,
              click_cooldown_ms = 300\<rparr>\<rparr>"
    by (simp only: run fst_conv)
  have d: "site_configs (snd (updateConfig (JStr ''shop'') (Some 7) (JObj test_payload) shop_store))
     = [shop_config\<lparr>c_cursor_speed := Some 15, c_scroll_speed := Some 20, c_updated_at := Some 100\<rparr>]"
    by (simp add: run)
  from c a d b show ?thesis
    by (intro conjI)
qed


text \<open>
  Claim C10. A whitelisted field set to \<open>null\<close> passes the filter and is stored as null,
  and the configuration returned by \<open>updateConfig\<close>, and by a following \<open>resolveConfig\<close>,
  shows the default of that field. A field mapped to \<open>undefined\<close> is not part of the
  update: the outcome is that of the payload without the key. The update is one
  statement of the store, so it is applied when the store takes every other supplied
  whitelisted value too (\<open>null\<close>, or a value of the column's type, a number being of 32
  bits).
\<close>

theorem undefined_is_absent_null_is_default:
  assumes "script st = []" "s \<noteq> []"
    and "filter (\<lambda>r. s_site_id r = s \<and> s_user_id r = u) (sites st) = [site]"
    and "filter (\<lambda>c. c_site_id c = s_id site) (site_configs st) = [row]"
    and "k \<in> set allowedFields" "prop_of kvs k = JNull"
    and "\<forall>j \<in> set allowedFields.
           prop_of kvs j = JUndefined \<or> prop_of kvs j = JNull \<or> has_type j (prop_of kvs j)"
  shows "(k, JNull) \<in> set (sanitizedUpdates kvs)
         \<and> (\<exists>d row'.
               fst (updateConfig (JStr s) (Some u) (JObj kvs) st) = Inr d
             \<and> site_configs (snd (updateConfig (JStr s) (Some u) (JObj kvs) st))
                 = map (\<lambda>c. if c_site_id c = s_id site then row' else c) (site_configs st)
             \<and> column k row' = JNull
             \<and> field k (data_config d) = field k default_settings
             \<and> fst (getConfigBySiteId (JStr s) (Some u)
                      (snd (updateConfig (JStr s) (Some u) (JObj kvs) st))) = Inr d)
         \<and> (\<forall>j kvs'. map_of kvs' j = Some JUndefined \<longrightarrow>
               (\<forall>v. (j, v) \<notin> set (sanitizedUpdates kvs'))
             \<and> updateConfig (JStr s) (Some u) (JObj kvs') st
                 = updateConfig (JStr s) (Some u) (JObj (filter (\<lambda>kv. fst kv \<noteq> j) kvs')) st)"
proof -
  have passes: "(k, JNull) \<in> set (sanitizedUpdates kvs)"
    using assms(5,6) by (force simp: sanitizedUpdates_def)
  then have nonempty: "sanitizedUpdates kvs \<noteq> []"
    by auto
  from update_applies [OF assms(1-4) nonempty assms(7)] obtain row' where
    upd: "updateConfig (JStr s) (Some u) (JObj kvs) st
             = (Inr \<lparr>data_site_id = s, data_config = normalizeConfig row'\<rparr>,
                st\<lparr>calls := calls st @ [(Sites, Select), (SiteConfigs, Update)],
                   site_configs := map (\<lambda>c. if c_site_id c = s_id site then row' else c)
                                       (site_configs st)\<rparr>)"
    and col: "\<And>j. column j row'
                     = (if j \<in> set allowedFields \<and> prop_of kvs j \<noteq> JUndefined then prop_of kvs j
                        else if j = ''updated_at'' then JNum (int (clock st))
                        else column j row)"
    and res: "fst (getConfigBySiteId (JStr s) (Some u)
                    (snd (updateConfig (JStr s) (Some u) (JObj kvs) st)))
               = Inr \<lparr>data_site_id = s, data_config = normalizeConfig row'\<rparr>"
    by blast
  have null: "column k row' = JNull"
    using assms(5,6) by (simp add: col)
  then have dflt: "field k (normalizeConfig row') = field k default_settings"
    using assms(5) by (simp add: normalize_field)
  let ?d = "\<lparr>data_site_id = s, data_config = normalizeConfig row'\<rparr>"
  have "fst (updateConfig (JStr s) (Some u) (JObj kvs) st) = Inr ?d"
    "site_configs (snd (updateConfig (JStr s) (Some u) (JObj kvs) st))
       = map (\<lambda>c. if c_site_id c = s_id site then row' else c) (site_configs st)"
    "field k (data_config ?d) = field k default_settings"
    by (simp_all add: upd dflt)
  with null res have stored:
    "\<exists>d row'.
        fst (updateConfig (JStr s) (Some u) (JObj kvs) st) = Inr d
      \<and> site_configs (snd (updateConfig (JStr s) (Some u) (JObj kvs) st))
          = map (\<lambda>c. if c_site_id c = s_id site then row' else c) (site_configs st)
      \<and> column k row' = JNull
      \<and> field k (data_config d) = field k default_settings
      \<and> fst (getConfigBySiteId (JStr s) (Some u)
               (snd (updateConfig (JStr s) (Some u) (JObj kvs) st))) = Inr d"
    by blast
  have undef: "(\<forall>v. (j, v) \<notin> set (sanitizedUpdates kvs'))
             \<and> updateConfig (JStr s) (Some u) (JObj kvs') st
                 = updateConfig (JStr s) (Some u) (JObj (filter (\<lambda>kv. fst kv \<noteq> j) kvs')) st"
    if "map_of kvs' j = Some JUndefined" for j kvs'
  proof -
    from that have u: "prop_of kvs' j = JUndefined"
      by (simp add: prop_of_def)
    then have absent: "\<forall>v. (j, v) \<notin> set (sanitizedUpdates kvs')"
      by (auto simp: sanitizedUpdates_def)
    have "sanitizedUpdates kvs' = sanitizedUpdates (filter (\<lambda>kv. fst kv \<noteq> j) kvs')"
      using u by (intro sanitizedUpdates_cong) (simp add: prop_of_filter [where P = "\<lambda>x. x \<noteq> j"])
    then have "updateConfig (JStr s) (Some u) (JObj kvs') st
                 = updateConfig (JStr s) (Some u) (JObj (filter (\<lambda>kv. fst kv \<noteq> j) kvs')) st"
      by (rule updateConfig_cong)
    with absent show ?thesis
      by (intro conjI)
  qed
  from passes stored undef show ?thesis by blast
qed

theorem undefined_is_absent_null_is_default_witness:
  "fst (updateConfig (JStr ''shop'') (Some 7) (JObj null_payload) shop_store)
     = Inr \<lparr>data_site_id = ''shop'',
            data_config = \<lparr>cursor_mode_enabled = True, cursor_speed = 10, scroll_speed = 15,
              accessibility_profile = ''standard'', enter_hold_ms = 1000, exit_hold_ms = 800,
              click_cooldown_ms = 300\<rparr>\<rparr>
   \<and> site_configs (snd (updateConfig (JStr ''shop'') (Some 7) (JObj null_payload) shop_store))
     = [shop_config\<lparr>c_cursor_speed := None, c_updated_at := Some 100\<rparr>]
   \<and> (''cursor_speed'', JNull) \<in> set (sanitizedUpdates null_payload)
   \<and> fst (getConfigBySiteId (JStr ''shop'') (Some 7)
            (snd (updateConfig (JStr ''shop'') (Some 7) (JObj null_payload) shop_store)))
     = fst (updateConfig (JStr ''shop'') (Some 7) (JObj null_payload) shop_store)
   \<and> updateConfig (JStr ''shop'') (Some 7) (JObj ((''scroll_speed'', JUndefined) # null_payload)) shop_store
     = updateConfig (JStr ''shop'') (Some 7) (JObj null_payload) shop_store"
proof -
  have pre: "script shop_store = []" "''shop'' \<noteq> []"
    "filter (\<lambda>r. s_site_id r = ''shop'' \<and> s_user_id r = 7) (sites shop_store) = [shop_site]"
    "filter (\<lambda>c. c_site_id c = s_id shop_site) (site_configs shop_store) = [shop_config]"
    "''cursor_speed'' \<in> set allowedFields" "prop_of null_payload ''cursor_speed'' = JNull"
    "\<forall>j \<in> set allowedFields.
        prop_of null_payload j = JUndefined \<or> prop_of null_payload j = JNull
        \<or> has_type j (prop_of null_payload j)"
    by (simp_all add: shop_store_def shop_site_def shop_config_def allowedFields_def prop_of_def
          null_payload_def)
  note w = undefined_is_absent_null_is_default [OF pre]
  have run: "updateConfig (JStr ''shop'') (Some 7) (JObj null_payload) shop_store
     = (Inr \<lparr>data_site_id = ''shop'',
            data_config = \<lparr>cursor_mode_enabled = True, cursor_speed = 10, scroll_speed = 15,
              accessibility_profile = ''standard'', enter_hold_ms = 1000, exit_hold_ms = 800,
              click_cooldown_ms = 300\<rparr>\<rparr>,
        shop_store\<lparr>calls := [(Sites, Select), (SiteConfigs, Update)],
          site_configs := [shop_config\<lparr>c_cursor_speed := None, c_updated_at := Some 100\<rparr>]\<rparr>)"
    by (simp add: updateConfig_def select_site_quiet single_def update_site_config_quiet
          sanitizedUpdates_def prop_of_def allowedFields_def null_payload_def set_column_def
          column_named_def as_integer_def as_timestamp_def in_int32_def normalizeConfig_def
          shop_store_def
          shop_site_def shop_config_def)
  from w have a: "(''cursor_speed'', JNull) \<in> set (sanitizedUpdates null_payload)"
    by blast
  from w have b: "fst (getConfigBySiteId (JStr ''shop'') (Some 7)
            (snd (updateConfig (JStr ''shop'') (Some 7) (JObj null_payload) shop_store)))
     = fst (updateConfig (JStr ''shop'') (Some 7) (JObj null_payload) shop_store)"
    by auto
  from w have "map_of ((''scroll_speed'', JUndefined) # null_payload) ''scroll_speed'' = Some JUndefined
     \<longrightarrow> updateConfig (JStr ''shop'') (Some 7) (JObj ((''scroll_speed'', JUndefined) # null_payload))
           shop_store
         = updateConfig (JStr ''shop'') (Some 7)
             (JObj (filter (\<lambda>kv. fst kv \<noteq> ''scroll_speed'') ((''scroll_speed'', JUndefined) # null_payload)))
             shop_store"
    by blast
  moreover have "filter (\<lambda>kv. fst kv \<noteq> ''scroll_speed'') ((''scroll_speed'', JUndefined) # null_payload)
                   = null_payload"
    by (simp add: null_payload_def)
  moreover have "map_of ((''scroll_speed'', JUndefined) # null_payload) ''scroll_speed'' = Some JUndefined"
    by simp
  ultimately have c: "updateConfig (JStr ''shop'') (Some 7)
        (JObj ((''scroll_speed'', JUndefined) # null_payload)) shop_store
     = updateConfig (JStr ''shop'') (Some 7) (JObj null_payload) shop_store"
    by (simp only:)
  have d: "fst (updateConfig (JStr ''shop'') (Some 7) (JObj null_payload) shop_store)
     = Inr \<lparr>data_site_id = ''shop'',
            data_config = \<lparr>cursor_mode_enabled = True, cursor_speed = 10, scroll_speed = 15,
              accessibility_profile = ''standard'', enter_hold_ms = 1000, exit_hold_ms = 800,
              click_cooldown_ms = 300\<rparr>\<rparr>"
    by (simp only: run fst_conv)
  have e: "site_configs (snd (updateConfig (JStr ''shop'') (Some 7) (JObj null_payload) shop_store))
     = [shop_config\<lparr>c_cursor_speed := None, c_updated_at := Some 100\<rparr>]"
    by (simp add: run)
  from d e a b c show ?thesis
    by (intro conjI)
qed

end
